theory Spec2Isabelle
  imports Complex_Main "HOL-Library.Multiset"
begin

section \<open>Spatial analysis of observations against watersheds and trails\<close>

text \<open>
  A shallow embedding of \<^verbatim>\<open>spatial-analysis.js\<close> and of the part of
  \<^verbatim>\<open>config.js\<close> it reads.

  Conventions of the embedding.
  \<^item> A JavaScript number is a binary64 value: \<^verbatim>\<open>NaN\<close>, an infinity, or a finite
    number given by its exact real value. An arithmetic result is rounded to the nearest
    binary64, ties to even, with gradual underflow and overflow to infinity. The sign of
    zero is not represented: comparisons and truthiness do not see it, and no divisor of
    this code can be a zero (the divisors are 1000, 1000000, a normaliser that is at
    least 1 and an area tested to be positive).
  \<^item> A count is an integer. It is held exactly by a binary64 as long as it stays below
    \<open>2^53\<close>, which the length of a JavaScript array (below \<open>2^32\<close>) guarantees.
  \<^item> The features of a collection are distinct objects (as \<^verbatim>\<open>JSON.parse\<close> yields
    them); a collection is the list of its features and mutation in place is state
    passing: a function returns the features as it leaves them.
  \<^item> The Turf.js functions are not part of the repository. They are parameters of the
    model, each returning \<open>None\<close> where the library function throws. They read the
    geometry of a feature only, never its properties.
  \<^item> An exception that escapes a function is \<open>Inl\<close>, carrying the features as the
    aborted run left them; a normal return is \<open>Inr\<close>.
\<close>

subsection \<open>Numbers\<close>

datatype jsnum = NaN | PosInf | NegInf | Num real

fun neg :: "jsnum \<Rightarrow> jsnum" where
  "neg NaN = NaN"
| "neg PosInf = NegInf"
| "neg NegInf = PosInf"
| "neg (Num x) = Num (- x)"

text \<open>\<^verbatim>\<open>a <= b\<close> and \<^verbatim>\<open>a < b\<close>: false as soon as one side is \<^verbatim>\<open>NaN\<close>.\<close>

fun jsle :: "jsnum \<Rightarrow> jsnum \<Rightarrow> bool" where
  "jsle (Num a) (Num b) = (a \<le> b)"
| "jsle (Num a) PosInf = True"
| "jsle NegInf (Num b) = True"
| "jsle NegInf PosInf = True"
| "jsle PosInf PosInf = True"
| "jsle NegInf NegInf = True"
| "jsle _ _ = False"

fun jslt :: "jsnum \<Rightarrow> jsnum \<Rightarrow> bool" where
  "jslt (Num a) (Num b) = (a < b)"
| "jslt (Num a) PosInf = True"
| "jslt NegInf (Num b) = True"
| "jslt NegInf PosInf = True"
| "jslt _ _ = False"

text \<open>The integer nearest to \<open>y\<close>, the even one of two equally near.\<close>

definition roundEven :: "real \<Rightarrow> int" where
  "roundEven y =
     (let f = \<lfloor>y\<rfloor>
      in if y - of_int f < 1 / 2 then f
         else if y - of_int f > 1 / 2 then f + 1
         else if even f then f else f + 1)"

text \<open>The exponent of the binade of a non-negative \<open>x\<close>: the largest \<open>e\<close> from -1021 to
  1023 with \<open>2^e \<le> x\<close>, and -1022 (the subnormal range and the first normal binade)
  when there is none.\<close>

fun binadeFrom :: "real \<Rightarrow> nat \<Rightarrow> int" where
  "binadeFrom x 0 = - 1022"
| "binadeFrom x (Suc n) =
     (if 2 powi (int (Suc n) - 1022) \<le> x then int (Suc n) - 1022 else binadeFrom x n)"

definition binade :: "real \<Rightarrow> int" where
  "binade x = binadeFrom x 2045"

text \<open>Rounding a non-negative real to binary64: to a multiple of the unit in the last of
  the 53 places of its binade; a result of \<open>2^1024\<close> is an overflow.\<close>

definition flpos :: "real \<Rightarrow> jsnum" where
  "flpos x =
     (let u = 2 powi (binade x - 52);
          v = of_int (roundEven (x / u)) * u
      in if v \<ge> 2 powi 1024 then PosInf else Num v)"

definition fl :: "real \<Rightarrow> jsnum" where
  "fl x = (if x < 0 then neg (flpos (- x)) else flpos x)"

text \<open>\<^verbatim>\<open>a / b\<close>. A zero divisor is taken as the positive zero.\<close>

fun fdiv :: "jsnum \<Rightarrow> jsnum \<Rightarrow> jsnum" where
  "fdiv (Num a) (Num b) =
     (if b = 0 then (if a = 0 then NaN else if a > 0 then PosInf else NegInf)
      else fl (a / b))"
| "fdiv (Num a) PosInf = Num 0"
| "fdiv (Num a) NegInf = Num 0"
| "fdiv PosInf (Num b) = (if b \<ge> 0 then PosInf else NegInf)"
| "fdiv NegInf (Num b) = (if b \<ge> 0 then NegInf else PosInf)"
| "fdiv _ _ = NaN"

text \<open>The decimal with \<open>d\<close> digits nearest to \<open>x\<close>, the larger one of two equally near,
  the sign treated apart: the digits \<^verbatim>\<open>toFixed\<close> prints for a finite number below
  \<open>10^21\<close>.\<close>

definition roundHalfUp :: "nat \<Rightarrow> real \<Rightarrow> real" where
  "roundHalfUp d x =
     (if x < 0 then - (of_int \<lfloor>(- x) * 10 ^ d + 1 / 2\<rfloor> / 10 ^ d)
      else of_int \<lfloor>x * 10 ^ d + 1 / 2\<rfloor> / 10 ^ d)"

text \<open>\<^verbatim>\<open>+(x).toFixed(d)\<close>: the string \<^verbatim>\<open>toFixed\<close> prints, read back as a number. From
  \<open>10^21\<close> on, and for \<^verbatim>\<open>NaN\<close> and the infinities, the string is that of the number
  itself.\<close>

fun toFixed :: "nat \<Rightarrow> jsnum \<Rightarrow> jsnum" where
  "toFixed d (Num x) = (if \<bar>x\<bar> \<ge> 10 ^ 21 then Num x else fl (roundHalfUp d x))"
| "toFixed d n = n"

text \<open>The value of the \<^verbatim>\<open>bufferMeters\<close> argument, and its truthiness.\<close>

datatype jsval = Undefined | Number jsnum

fun truthy :: "jsval \<Rightarrow> bool" where
  "truthy Undefined = False"
| "truthy (Number NaN) = False"
| "truthy (Number (Num r)) = (r \<noteq> 0)"
| "truthy (Number PosInf) = True"
| "truthy (Number NegInf) = True"

subsection \<open>Data model\<close>

record 'g feature =
  geometry :: 'g
  name :: string

record 'g watershed = "'g feature" +
  obsCount :: int
  obsDensity :: jsnum

record 'g trail = "'g feature" +
  obsNearby :: int
  scoreNorm :: jsnum

text \<open>The four library functions the module calls: \<^verbatim>\<open>turf.point\<close>,
  \<^verbatim>\<open>turf.booleanPointInPolygon\<close>, \<^verbatim>\<open>turf.nearestPointOnLine\<close> (its
  \<^verbatim>\<open>properties.dist\<close>, in kilometres) and \<^verbatim>\<open>turf.area\<close> (in square metres).\<close>

record ('c, 'p, 'g) turf =
  turf_point :: "'c \<Rightarrow> 'p option"
  turf_booleanPointInPolygon :: "'p \<Rightarrow> 'g \<Rightarrow> bool option"
  turf_nearestPointOnLine :: "'g \<Rightarrow> 'p \<Rightarrow> jsnum option"
  turf_area :: "'g \<Rightarrow> jsnum option"

text \<open>An exception thrown by \<^verbatim>\<open>turf.point\<close> is caught nowhere; it carries the state
  in which the features were left.\<close>

datatype 's error = PointError 's

text \<open>\<^verbatim>\<open>CONFIG.analysis\<close>.\<close>

record analysis =
  trailBufferMeters :: real
  densityBreaks :: "real list"

definition CONFIG_analysis :: analysis where
  "CONFIG_analysis = \<lparr> trailBufferMeters = 100, densityBreaks = [0, 1, 5, 15, 40, 100] \<rparr>"

subsection \<open>aggregateByWatershed\<close>

definition resetWatershed :: "'g watershed \<Rightarrow> 'g watershed" where
  "resetWatershed ws = ws\<lparr> obsCount := 0, obsDensity := Num 0 \<rparr>"

text \<open>The inner \<^verbatim>\<open>for ... of\<close> loop for one point: the first watershed for which
  the test returns true is incremented and the loop is left; a test that throws is
  caught and the loop goes on.\<close>

fun assignPoint :: "('c, 'p, 'g) turf \<Rightarrow> 'p \<Rightarrow> 'g watershed list \<Rightarrow> 'g watershed list" where
  "assignPoint T turfPt [] = []"
| "assignPoint T turfPt (ws # rest) =
     (case turf_booleanPointInPolygon T turfPt (geometry ws) of
        Some True \<Rightarrow> ws\<lparr> obsCount := obsCount ws + 1 \<rparr> # rest
      | Some False \<Rightarrow> ws # assignPoint T turfPt rest
      | None \<Rightarrow> ws # assignPoint T turfPt rest)"

text \<open>\<^verbatim>\<open>points.forEach\<close>: \<^verbatim>\<open>turf.point\<close> is called outside the \<^verbatim>\<open>try\<close>.\<close>

fun countObservations ::
  "('c, 'p, 'g) turf \<Rightarrow> 'g watershed list \<Rightarrow> 'c list
     \<Rightarrow> 'g watershed list error + 'g watershed list" where
  "countObservations T wss [] = Inr wss"
| "countObservations T wss (coord # rest) =
     (case turf_point T coord of
        None \<Rightarrow> Inl (PointError wss)
      | Some turfPt \<Rightarrow> countObservations T (assignPoint T turfPt wss) rest)"

definition calculateDensity :: "('c, 'p, 'g) turf \<Rightarrow> 'g watershed \<Rightarrow> 'g watershed" where
  "calculateDensity T ws =
     (case turf_area T (geometry ws) of
        None \<Rightarrow> ws\<lparr> obsDensity := Num 0 \<rparr>
      | Some a \<Rightarrow>
          (let areaKm2 = fdiv a (Num 1000000)
           in ws\<lparr> obsDensity :=
                (if jslt (Num 0) areaKm2
                 then toFixed 2 (fdiv (Num (real_of_int (obsCount ws))) areaKm2)
                 else Num 0) \<rparr>))"

definition aggregateByWatershed ::
  "('c, 'p, 'g) turf \<Rightarrow> 'g watershed list \<Rightarrow> 'c list
     \<Rightarrow> 'g watershed list error + 'g watershed list" where
  "aggregateByWatershed T watersheds observations =
     (case countObservations T (map resetWatershed watersheds) observations of
        Inl e \<Rightarrow> Inl e
      | Inr wss \<Rightarrow> Inr (map (calculateDensity T) wss))"

subsection \<open>classifyDensity\<close>

function classifyFrom :: "real list \<Rightarrow> real \<Rightarrow> int \<Rightarrow> int" where
  "classifyFrom breaks cnt i =
     (if i \<ge> 0
      then (if cnt \<ge> breaks ! nat i then i else classifyFrom breaks cnt (i - 1))
      else 0)"
  by pat_completeness auto
termination
  by (relation "measure (\<lambda>(breaks, cnt, i). nat (i + 1))") auto

definition classifyDensity :: "analysis \<Rightarrow> real \<Rightarrow> int" where
  "classifyDensity cfg cnt =
     classifyFrom (densityBreaks cfg) cnt (int (length (densityBreaks cfg)) - 1)"

subsection \<open>scoreTrails\<close>

definition bufferKm :: "analysis \<Rightarrow> jsval \<Rightarrow> jsnum" where
  "bufferKm cfg bufferMeters =
     fdiv (case bufferMeters of
             Number n \<Rightarrow> (if truthy bufferMeters then n else Num (trailBufferMeters cfg))
           | Undefined \<Rightarrow> Num (trailBufferMeters cfg))
          (Num 1000)"

definition resetTrail :: "'g trail \<Rightarrow> 'g trail" where
  "resetTrail t = t\<lparr> obsNearby := 0, scoreNorm := Num 0 \<rparr>"

text \<open>The body of the inner \<^verbatim>\<open>trails.features.forEach\<close> for one point and one trail.\<close>

definition scoreTrail :: "('c, 'p, 'g) turf \<Rightarrow> jsnum \<Rightarrow> 'p \<Rightarrow> 'g trail \<Rightarrow> 'g trail" where
  "scoreTrail T bufKm turfPt t =
     (case turf_nearestPointOnLine T (geometry t) turfPt of
        None \<Rightarrow> t
      | Some distKm \<Rightarrow> (if jsle distKm bufKm then t\<lparr> obsNearby := obsNearby t + 1 \<rparr> else t))"

fun scoreObservations ::
  "('c, 'p, 'g) turf \<Rightarrow> jsnum \<Rightarrow> 'g trail list \<Rightarrow> 'c list
     \<Rightarrow> 'g trail list error + 'g trail list" where
  "scoreObservations T bufKm ts [] = Inr ts"
| "scoreObservations T bufKm ts (coord # rest) =
     (case turf_point T coord of
        None \<Rightarrow> Inl (PointError ts)
      | Some turfPt \<Rightarrow> scoreObservations T bufKm (map (scoreTrail T bufKm turfPt) ts) rest)"

text \<open>\<^verbatim>\<open>Math.max(1, ...counts)\<close>.\<close>

definition maxObs :: "'g trail list \<Rightarrow> int" where
  "maxObs ts = foldl max 1 (map obsNearby ts)"

definition normalize :: "'g trail list \<Rightarrow> 'g trail list" where
  "normalize ts =
     map (\<lambda>t. t\<lparr> scoreNorm :=
                toFixed 3 (fdiv (Num (real_of_int (obsNearby t))) (Num (real_of_int (maxObs ts)))) \<rparr>)
       ts"

definition scoreTrails ::
  "('c, 'p, 'g) turf \<Rightarrow> analysis \<Rightarrow> 'g trail list \<Rightarrow> 'c list \<Rightarrow> jsval
     \<Rightarrow> 'g trail list error + 'g trail list" where
  "scoreTrails T cfg trails observations bufferMeters =
     (case scoreObservations T (bufferKm cfg bufferMeters) (map resetTrail trails) observations of
        Inl e \<Rightarrow> Inl e
      | Inr ts \<Rightarrow> Inr (normalize ts))"

subsection \<open>rankWatersheds, rankTrails\<close>

text \<open>\<^verbatim>\<open>Array.prototype.sort\<close> with a comparator: a stable sort (ECMAScript 2019)
  that puts \<open>a\<close> before \<open>b\<close> when \<open>cmp a b < 0\<close> and keeps their order when
  \<open>cmp a b = 0\<close>.\<close>

fun insertBy :: "('a \<Rightarrow> 'a \<Rightarrow> int) \<Rightarrow> 'a \<Rightarrow> 'a list \<Rightarrow> 'a list" where
  "insertBy cmp a [] = [a]"
| "insertBy cmp a (b # bs) = (if cmp a b \<le> 0 then a # b # bs else b # insertBy cmp a bs)"

definition sortBy :: "('a \<Rightarrow> 'a \<Rightarrow> int) \<Rightarrow> 'a list \<Rightarrow> 'a list" where
  "sortBy cmp xs = foldr (insertBy cmp) xs []"

definition rankWatersheds :: "'g watershed list \<Rightarrow> 'g watershed list" where
  "rankWatersheds watersheds =
     sortBy (\<lambda>a b. obsCount b - obsCount a) (filter (\<lambda>f. obsCount f > 0) watersheds)"

definition rankTrails :: "'g trail list \<Rightarrow> 'g trail list" where
  "rankTrails trails =
     sortBy (\<lambda>a b. obsNearby b - obsNearby a) (filter (\<lambda>f. obsNearby f > 0) trails)"

subsection \<open>Notions used to state the properties\<close>

text \<open>A point is inside a polygon when the containment test returns true; a test that
  returns false or throws does not count.\<close>

definition inside :: "('c, 'p, 'g) turf \<Rightarrow> 'p \<Rightarrow> 'g \<Rightarrow> bool" where
  "inside T pt g = (turf_booleanPointInPolygon T pt g = Some True)"

text \<open>Polygon \<open>i\<close> is the first one of the sequence that contains the point.\<close>

definition firstMatch :: "('c, 'p, 'g) turf \<Rightarrow> 'p \<Rightarrow> 'g list \<Rightarrow> nat \<Rightarrow> bool" where
  "firstMatch T pt gs i = (i < length gs \<and> inside T pt (gs ! i) \<and> (\<forall>j<i. \<not> inside T pt (gs ! j)))"

text \<open>A point is near a line when the distance is computed and is at most the buffer.\<close>

definition near :: "('c, 'p, 'g) turf \<Rightarrow> jsnum \<Rightarrow> 'p \<Rightarrow> 'g \<Rightarrow> bool" where
  "near T bufKm pt g =
     (case turf_nearestPointOnLine T g pt of None \<Rightarrow> False | Some distKm \<Rightarrow> jsle distKm bufKm)"

text \<open>The points of the observations whose coordinates \<^verbatim>\<open>turf.point\<close> accepts.\<close>

definition turfPoints :: "('c, 'p, 'g) turf \<Rightarrow> 'c list \<Rightarrow> 'p list" where
  "turfPoints T observations = List.map_filter (turf_point T) observations"

subsection \<open>A planar instance of the library, for running the model\<close>

text \<open>The theorems below hold for every instance of the library interface. To run the
  model on examples, this small instance works in a plane measured in kilometres: a
  polygon is an axis-parallel rectangle, a line is a horizontal segment and the distance
  to it is taken along the axes. The examples use coordinates that are binary fractions,
  so that the distances and areas of the instance are binary64 values. As in Turf.js, \<^verbatim>\<open>point\<close> throws on coordinates with
  fewer than two numbers, and a function given a geometry of the wrong kind throws.\<close>

datatype geom = Rect real real real real | HLine real real real | Malformed

definition demo_point :: "real list \<Rightarrow> (real \<times> real) option" where
  "demo_point coord = (case coord of x # y # _ \<Rightarrow> Some (x, y) | _ \<Rightarrow> None)"

definition demo_booleanPointInPolygon :: "real \<times> real \<Rightarrow> geom \<Rightarrow> bool option" where
  "demo_booleanPointInPolygon pt g =
     (case g of
        Rect x0 y0 x1 y1 \<Rightarrow> Some (x0 \<le> fst pt \<and> fst pt \<le> x1 \<and> y0 \<le> snd pt \<and> snd pt \<le> y1)
      | _ \<Rightarrow> None)"

definition demo_nearestPointOnLine :: "geom \<Rightarrow> real \<times> real \<Rightarrow> jsnum option" where
  "demo_nearestPointOnLine g pt =
     (case g of
        HLine y x0 x1 \<Rightarrow>
          Some (Num (\<bar>snd pt - y\<bar> +
                (if fst pt < x0 then x0 - fst pt else if fst pt > x1 then fst pt - x1 else 0)))
      | _ \<Rightarrow> None)"

definition demo_area :: "geom \<Rightarrow> jsnum option" where
  "demo_area g =
     (case g of Rect x0 y0 x1 y1 \<Rightarrow> Some (Num ((x1 - x0) * (y1 - y0) * 1000000)) | _ \<Rightarrow> None)"

definition demo :: "(real list, real \<times> real, geom) turf" where
  "demo = \<lparr> turf_point = demo_point,
            turf_booleanPointInPolygon = demo_booleanPointInPolygon,
            turf_nearestPointOnLine = demo_nearestPointOnLine,
            turf_area = demo_area \<rparr>"

definition mkWatershed :: "string \<Rightarrow> geom \<Rightarrow> int \<Rightarrow> jsnum \<Rightarrow> geom watershed" where
  "mkWatershed n g c d = \<lparr> geometry = g, name = n, obsCount = c, obsDensity = d \<rparr>"

definition mkTrail :: "string \<Rightarrow> geom \<Rightarrow> int \<Rightarrow> jsnum \<Rightarrow> geom trail" where
  "mkTrail n g c s = \<lparr> geometry = g, name = n, obsNearby = c, scoreNorm = s \<rparr>"

section \<open>Properties\<close>

subsection \<open>Binary64 rounding\<close>

text \<open>Rounding to the nearest integer.\<close>

lemma roundEven_of_int: "roundEven (of_int n) = n"
  by (simp add: roundEven_def)

lemma roundEven_nonneg: "0 \<le> y \<Longrightarrow> 0 \<le> roundEven y"
  by (auto simp: roundEven_def Let_def)

lemma roundEven_le: "y \<le> of_int n \<Longrightarrow> roundEven y \<le> n"
proof -
  assume a: "y \<le> of_int n"
  have f: "\<lfloor>y\<rfloor> \<le> n" using a by (simp add: floor_le_iff)
  show ?thesis
  proof (cases "\<lfloor>y\<rfloor> = n")
    case True
    then have "y - of_int \<lfloor>y\<rfloor> \<le> 0" using a by simp
    then show ?thesis using True by (simp add: roundEven_def Let_def)
  next
    case False
    with f have "\<lfloor>y\<rfloor> + 1 \<le> n" by simp
    then show ?thesis using f by (auto simp: roundEven_def Let_def)
  qed
qed

lemma roundEven_pos: "1 / 2 < y \<Longrightarrow> 1 \<le> roundEven y"
proof -
  assume a: "1 / 2 < y"
  then have f: "0 \<le> \<lfloor>y\<rfloor>" by simp
  show ?thesis
  proof (cases "\<lfloor>y\<rfloor> = 0")
    case True
    with a have "y - of_int \<lfloor>y\<rfloor> > 1 / 2" by simp
    then show ?thesis using True by (simp add: roundEven_def Let_def)
  next
    case False
    have "1 \<le> \<lfloor>y\<rfloor>" using f False by linarith
    then show ?thesis by (auto simp: roundEven_def Let_def)
  qed
qed

text \<open>The binade search finds the binade.\<close>

lemma binadeFrom_lower: "- 1022 \<le> binadeFrom x n"
  by (induction n) auto

lemma binadeFrom_upper: "binadeFrom x n \<le> int n - 1022"
  by (induction n) auto

lemma binadeFrom_below: "- 1022 < binadeFrom x n \<Longrightarrow> 2 powi (binadeFrom x n) \<le> x"
  by (induction n) (auto split: if_splits)

lemma binadeFrom_above: "x < 2 powi (int n - 1021) \<Longrightarrow> x < 2 powi (binadeFrom x n + 1)"
proof (induction n)
  case 0
  then show ?case by simp
next
  case (Suc n)
  show ?case
  proof (cases "2 powi (int (Suc n) - 1022) \<le> x")
    case True
    with Suc.prems show ?thesis by (simp add: algebra_simps)
  next
    case False
    then have "x < 2 powi (int n - 1021)" by (simp add: algebra_simps)
    from Suc.IH [OF this] False show ?thesis by simp
  qed
qed

lemma binade_lower: "- 1022 \<le> binade x"
  by (simp add: binade_def binadeFrom_lower)

lemma binade_upper: "binade x \<le> 1023"
  using binadeFrom_upper [of x 2045] by (simp add: binade_def)

lemma binade_below: "- 1022 < binade x \<Longrightarrow> 2 powi (binade x) \<le> x"
  unfolding binade_def by (rule binadeFrom_below)

lemma binade_above: "x < 2 powi 1024 \<Longrightarrow> x < 2 powi (binade x + 1)"
  unfolding binade_def by (rule binadeFrom_above) simp

lemma binade_eqI:
  assumes "- 1022 \<le> e" and "e \<le> 1023"
    and "e = - 1022 \<or> 2 powi e \<le> x" and "e = 1023 \<or> x < 2 powi (e + 1)"
  shows "binade x = e"
proof (rule antisym)
  show "binade x \<le> e"
  proof (rule ccontr)
    assume "\<not> binade x \<le> e"
    then have gt: "e + 1 \<le> binade x" by simp
    with binade_upper [of x] have "e \<noteq> 1023" by auto
    with assms(4) have lt: "x < 2 powi (e + 1)" by simp
    from gt assms(1) have "2 powi (binade x) \<le> x" by (intro binade_below) simp
    moreover have "(2::real) powi (e + 1) \<le> 2 powi (binade x)"
      using gt by (intro power_int_increasing) simp_all
    ultimately show False using lt by simp
  qed
next
  show "e \<le> binade x"
  proof (rule ccontr)
    assume "\<not> e \<le> binade x"
    then have lt: "binade x + 1 \<le> e" by simp
    with binade_lower [of x] have "e \<noteq> - 1022" by auto
    with assms(3) have le: "2 powi e \<le> x" by simp
    have "(2::real) powi e \<le> 2 powi 1023"
      using assms(2) by (intro power_int_increasing) simp_all
    have "x < 2 powi 1024"
    proof (rule ccontr)
      assume "\<not> x < 2 powi 1024"
      then have "2 powi (int (Suc 2044) - 1022) \<le> x"
        using power_int_increasing [of 1023 1024 "2::real"] by simp
      then have "binade x = 1023" by (simp add: binade_def eval_nat_numeral)
      with lt assms(2) show False by simp
    qed
    then have "x < 2 powi (binade x + 1)" by (rule binade_above)
    moreover have "(2::real) powi (binade x + 1) \<le> 2 powi e"
      using lt by (intro power_int_increasing) simp_all
    ultimately show False using le by simp
  qed
qed

text \<open>Evaluating the rounding at a given binade.\<close>

lemma flpos_eval:
  assumes "- 1022 \<le> e" and "e \<le> 1023"
    and "e = - 1022 \<or> 2 powi e \<le> x" and "e = 1023 \<or> x < 2 powi (e + 1)"
  shows "flpos x = (let u = 2 powi (e - 52); v = of_int (roundEven (x / u)) * u
                in if v \<ge> 2 powi 1024 then PosInf else Num v)"
  using binade_eqI [OF assms] by (simp add: flpos_def)

lemmas fl_eval = fl_def roundEven_def roundHalfUp_def Let_def

text \<open>Sign, range and finiteness of a rounded value.\<close>

lemma flpos_nonneg:
  assumes "0 \<le> x"
  shows "flpos x = PosInf \<or> (\<exists>r. flpos x = Num r \<and> 0 \<le> r)"
proof -
  have "0 \<le> x / 2 powi (binade x - 52)" using assms by simp
  then have "0 \<le> roundEven (x / 2 powi (binade x - 52))" by (rule roundEven_nonneg)
  then have "0 \<le> real_of_int (roundEven (x / 2 powi (binade x - 52))) * 2 powi (binade x - 52)"
    by simp
  then show ?thesis by (simp add: flpos_def Let_def)
qed

lemma flpos_positive:
  assumes "2 powi (- 1074) \<le> x"
  shows "flpos x = PosInf \<or> (\<exists>r. flpos x = Num r \<and> 0 < r)"
proof -
  have "1 \<le> x / 2 powi (binade x - 52)"
  proof (cases "binade x = - 1022")
    case True
    with assms show ?thesis by (simp add: field_simps)
  next
    case False
    with binade_lower [of x] have "- 1022 < binade x" by simp
    then have "2 powi (binade x) \<le> x" by (rule binade_below)
    moreover have "(2::real) powi (binade x - 52) \<le> 2 powi (binade x)"
      by (intro power_int_increasing) simp_all
    ultimately have "2 powi (binade x - 52) \<le> x" by simp
    then show ?thesis by (simp add: field_simps)
  qed
  then have "1 / 2 < x / 2 powi (binade x - 52)" by linarith
  then have "1 \<le> roundEven (x / 2 powi (binade x - 52))" by (rule roundEven_pos)
  then have "0 < real_of_int (roundEven (x / 2 powi (binade x - 52))) * 2 powi (binade x - 52)"
    by simp
  then show ?thesis by (simp add: flpos_def Let_def)
qed

lemma flpos_le_one:
  assumes "0 \<le> x" and "x \<le> 1"
  shows "\<exists>r. flpos x = Num r \<and> 0 \<le> r \<and> r \<le> 1"
proof -
  define e where "e = binade x"
  have e: "e \<le> 0"
  proof (rule ccontr)
    assume "\<not> e \<le> 0"
    then have pos: "1 \<le> e" by simp
    with binade_below [of x] have "2 powi e \<le> x" by (simp add: e_def)
    moreover have "(2::real) powi 1 \<le> 2 powi e"
      using pos by (intro power_int_increasing) simp_all
    ultimately show False using assms(2) by simp
  qed
  define N :: int where "N = 2 ^ nat (52 - e)"
  have inv: "real_of_int N * 2 powi (e - 52) = 1"
  proof -
    have "real_of_int N = 2 powi (52 - e)"
      using e by (simp add: N_def power_int_def)
    then have "real_of_int N * 2 powi (e - 52) = 2 powi (52 - e) * 2 powi (e - 52)" by simp
    also have "\<dots> = 2 powi ((52 - e) + (e - 52))"
      by (subst power_int_add) simp_all
    finally show ?thesis by simp
  qed
  have "x / 2 powi (e - 52) \<le> 1 / 2 powi (e - 52)"
    using assms(2) by (simp add: divide_right_mono)
  also have "1 / 2 powi (e - 52) = real_of_int N"
    using inv by (simp add: field_simps)
  finally have "roundEven (x / 2 powi (e - 52)) \<le> N" by (rule roundEven_le)
  then have "real_of_int (roundEven (x / 2 powi (e - 52))) * 2 powi (e - 52)
             \<le> real_of_int N * 2 powi (e - 52)"
    by (intro mult_right_mono) simp_all
  with inv have le: "real_of_int (roundEven (x / 2 powi (e - 52))) * 2 powi (e - 52) \<le> 1"
    by simp
  have "(1::real) < 2 powi 1024" by simp
  with le have fin: "flpos x = Num (real_of_int (roundEven (x / 2 powi (e - 52))) * 2 powi (e - 52))"
    by (simp add: flpos_def Let_def e_def)
  from flpos_nonneg [OF assms(1)] fin le show ?thesis by auto
qed

lemma flpos_finite:
  assumes "0 \<le> x" and "x < 2 powi 1023"
  shows "\<exists>r. flpos x = Num r"
proof -
  define e where "e = binade x"
  have e: "e \<le> 1022"
  proof (rule ccontr)
    assume "\<not> e \<le> 1022"
    with binade_upper [of x] have "e = 1023" by (simp add: e_def)
    with binade_below [of x] have "2 powi 1023 \<le> x" by (simp add: e_def)
    with assms(2) show False by simp
  qed
  have "x < 2 powi 1024"
    using assms(2) power_int_increasing [of 1023 1024 "2::real"] by simp
  then have above: "x < 2 powi (e + 1)" unfolding e_def by (rule binade_above)
  have "(2::real) powi 53 * 2 powi (e - 52) = 2 powi (53 + (e - 52))"
    by (subst power_int_add) simp_all
  also have "53 + (e - 52) = e + 1" by simp
  finally have split: "(2::real) powi (e + 1) = 2 powi 53 * 2 powi (e - 52)" by simp
  have "x / 2 powi (e - 52) \<le> 2 powi (e + 1) / 2 powi (e - 52)"
    using above by (simp add: divide_right_mono)
  also have "\<dots> = real_of_int (2 ^ 53)" by (simp add: split)
  finally have "roundEven (x / 2 powi (e - 52)) \<le> 2 ^ 53" by (rule roundEven_le)
  then have "real_of_int (roundEven (x / 2 powi (e - 52))) * 2 powi (e - 52)
             \<le> real_of_int (2 ^ 53) * 2 powi (e - 52)"
    by (intro mult_right_mono) simp_all
  also have "\<dots> = 2 powi (e + 1)" by (simp add: split)
  also have "\<dots> \<le> 2 powi 1023"
    using e by (intro power_int_increasing) simp_all
  also have "\<dots> < 2 powi 1024" by simp
  finally show ?thesis by (simp add: flpos_def Let_def e_def)
qed

lemma fl_zero: "fl 0 = Num 0"
  by (simp add: fl_eval flpos_eval [where e = "- 1022"])

lemma fl_one: "fl 1 = Num 1"
  by (simp add: fl_eval flpos_eval [where e = 0])

lemma fl_unit_interval:
  "0 \<le> x \<Longrightarrow> x \<le> 1 \<Longrightarrow> \<exists>r. fl x = Num r \<and> 0 \<le> r \<and> r \<le> 1"
  by (simp add: fl_def flpos_le_one)

lemma fl_nonneg: "0 \<le> x \<Longrightarrow> fl x = PosInf \<or> (\<exists>r. fl x = Num r \<and> 0 \<le> r)"
  by (simp add: fl_def flpos_nonneg)

lemma fl_finite: "0 \<le> x \<Longrightarrow> x < 2 powi 1023 \<Longrightarrow> \<exists>r. fl x = Num r"
  by (simp add: fl_def flpos_finite)

lemma fl_negative:
  assumes "x \<le> - (2 powi (- 1074))"
  shows "fl x = NegInf \<or> (\<exists>r. fl x = Num r \<and> r < 0)"
proof -
  have "(0::real) < 2 powi (- 1074)" by simp
  with assms have neg: "x < 0" by linarith
  from assms have "2 powi (- 1074) \<le> - x" by simp
  from flpos_positive [OF this] neg show ?thesis by (auto simp: fl_def)
qed

lemma fl_positive:
  assumes "2 powi (- 1074) \<le> x"
  shows "fl x = PosInf \<or> (\<exists>r. fl x = Num r \<and> 0 < r)"
proof -
  have "(0::real) < 2 powi (- 1074)" by simp
  with assms have "\<not> x < 0" by linarith
  with flpos_positive [OF assms] show ?thesis by (simp add: fl_def)
qed

subsection \<open>Printing with a fixed number of decimals\<close>

lemma roundHalfUp_nonneg: "0 \<le> x \<Longrightarrow> 0 \<le> roundHalfUp d x"
  by (simp add: roundHalfUp_def)

lemma roundHalfUp_zero: "roundHalfUp d 0 = 0"
  by (simp add: roundHalfUp_def)

lemma roundHalfUp_one: "roundHalfUp d 1 = 1"
proof -
  have "\<lfloor>(10::real) ^ d + 1 / 2\<rfloor> = 10 ^ d"
    by (rule floor_unique) simp_all
  then show ?thesis by (simp add: roundHalfUp_def)
qed

lemma roundHalfUp_le_one:
  assumes "0 \<le> x" and "x \<le> 1"
  shows "roundHalfUp d x \<le> 1"
proof -
  have "x * 10 ^ d + 1 / 2 \<le> 10 ^ d + 1 / 2"
    using assms by (simp add: mult_left_le_one_le)
  then have "\<lfloor>x * 10 ^ d + 1 / 2\<rfloor> \<le> \<lfloor>(10::real) ^ d + 1 / 2\<rfloor>"
    by (rule floor_mono)
  also have "\<lfloor>(10::real) ^ d + 1 / 2\<rfloor> = 10 ^ d"
    by (rule floor_unique) simp_all
  finally have "real_of_int \<lfloor>x * 10 ^ d + 1 / 2\<rfloor> \<le> 10 ^ d"
    by (metis of_int_le_iff of_int_numeral of_int_power)
  then show ?thesis using assms by (simp add: roundHalfUp_def divide_le_eq_1)
qed

lemma roundHalfUp_upper:
  assumes "0 \<le> x"
  shows "roundHalfUp d x \<le> x + 1 / 2"
proof -
  have pos: "(0::real) < 10 ^ d" by simp
  have one: "(1::real) \<le> 10 ^ d" by simp
  have "real_of_int \<lfloor>x * 10 ^ d + 1 / 2\<rfloor> \<le> x * 10 ^ d + 1 / 2" by simp
  then have "real_of_int \<lfloor>x * 10 ^ d + 1 / 2\<rfloor> / 10 ^ d \<le> (x * 10 ^ d + 1 / 2) / 10 ^ d"
    using pos by (simp add: divide_right_mono)
  also have "\<dots> = x + (1 / 2) / 10 ^ d" using pos by (simp add: field_simps)
  also have "\<dots> \<le> x + 1 / 2"
    using one by (simp add: field_simps)
  finally show ?thesis using assms by (simp add: roundHalfUp_def)
qed

lemma toFixed_zero: "toFixed d (Num 0) = Num 0"
  by (simp add: roundHalfUp_zero fl_zero)

lemma toFixed_one: "toFixed d (Num 1) = Num 1"
  by (simp add: roundHalfUp_one fl_one)

lemma toFixed_unit_interval:
  assumes "0 \<le> r" and "r \<le> 1"
  shows "\<exists>s. toFixed d (Num r) = Num s \<and> 0 \<le> s \<and> s \<le> 1"
proof -
  have small: "\<not> \<bar>r\<bar> \<ge> 10 ^ 21" using assms by simp
  have "\<exists>s. fl (roundHalfUp d r) = Num s \<and> 0 \<le> s \<and> s \<le> 1"
    by (intro fl_unit_interval roundHalfUp_nonneg roundHalfUp_le_one assms)
  with small show ?thesis by simp
qed

lemma toFixed_finite_nonneg:
  assumes "0 \<le> r"
  shows "\<exists>s. toFixed d (Num r) = Num s \<and> 0 \<le> s"
proof (cases "\<bar>r\<bar> \<ge> 10 ^ 21")
  case True
  with assms show ?thesis by simp
next
  case False
  then have "r < 10 ^ 21" by simp
  with roundHalfUp_upper [OF assms, of d] have "roundHalfUp d r < 10 ^ 21 + 1 / 2" by simp
  also have "(10::real) ^ 21 + 1 / 2 < 2 powi 1023" by simp
  finally have "\<exists>s. fl (roundHalfUp d r) = Num s"
    by (intro fl_finite roundHalfUp_nonneg assms)
  moreover from fl_nonneg [OF roundHalfUp_nonneg [OF assms, of d]]
  have "fl (roundHalfUp d r) = PosInf \<or> (\<exists>s. fl (roundHalfUp d r) = Num s \<and> 0 \<le> s)" .
  ultimately show ?thesis using False by auto
qed

subsection \<open>Classification\<close>

declare classifyFrom.simps [simp del]

lemma classifyFrom_miss:
  "(\<forall>k. 0 \<le> k \<and> k \<le> i \<longrightarrow> cnt < bs ! nat k) \<Longrightarrow> classifyFrom bs cnt i = 0"
proof (induction bs cnt i rule: classifyFrom.induct)
  case (1 breaks cnt i)
  show ?case
  proof (cases "i \<ge> 0")
    case True
    with "1.prems" have lt: "cnt < breaks ! nat i" by simp
    have "classifyFrom breaks cnt (i - 1) = 0"
      using "1.IH" True lt "1.prems" by simp
    with True lt show ?thesis by (subst classifyFrom.simps) simp
  next
    case False
    then show ?thesis by (subst classifyFrom.simps) simp
  qed
qed

lemma classifyFrom_hit:
  "0 \<le> k \<Longrightarrow> k \<le> i \<Longrightarrow> cnt \<ge> bs ! nat k \<Longrightarrow>
     k \<le> classifyFrom bs cnt i \<and> classifyFrom bs cnt i \<le> i \<and>
     cnt \<ge> bs ! nat (classifyFrom bs cnt i)"
proof (induction bs cnt i rule: classifyFrom.induct)
  case (1 breaks cnt i)
  from "1.prems" have nonneg: "i \<ge> 0" by simp
  show ?case
  proof (cases "cnt \<ge> breaks ! nat i")
    case True
    with nonneg have "classifyFrom breaks cnt i = i" by (subst classifyFrom.simps) simp
    with True "1.prems" show ?thesis by simp
  next
    case False
    with "1.prems" have "k \<noteq> i" by auto
    with "1.prems" have le: "k \<le> i - 1" by simp
    have eq: "classifyFrom breaks cnt i = classifyFrom breaks cnt (i - 1)"
      using nonneg False by (subst classifyFrom.simps) simp
    from "1.IH" [OF nonneg False "1.prems"(1) le "1.prems"(3)] eq show ?thesis by simp
  qed
qed

lemma sorted_first_least:
  "sorted_wrt (<) (bs :: real list) \<Longrightarrow> bs \<noteq> [] \<Longrightarrow> k < length bs \<Longrightarrow> bs ! 0 \<le> bs ! k"
  by (cases k) (auto simp: sorted_wrt_iff_nth_less less_imp_le)

text \<open>The loop scans the breakpoints from the last to the first and returns at the first
  hit, so an empty breakpoint list is classified 0.\<close>

lemma classifyDensity_no_breaks: "densityBreaks cfg = [] \<Longrightarrow> classifyDensity cfg cnt = 0"
  by (simp add: classifyDensity_def classifyFrom.simps)

text \<open>C6. For a non-negative count and strictly ascending breakpoints, \<open>classifyDensity\<close>
  returns 0 when the count is below the first breakpoint; otherwise it returns an index
  of the sequence whose breakpoint the count reaches, and no higher index has a
  breakpoint the count reaches. With the configured breakpoints, 42 is in tier 4.\<close>

theorem classifyDensity_highest_index:
  assumes "0 \<le> cnt" and "sorted_wrt (<) (densityBreaks cfg)"
  shows "(densityBreaks cfg \<noteq> [] \<and> cnt < densityBreaks cfg ! 0 \<longrightarrow> classifyDensity cfg cnt = 0) \<and>
         (\<forall>k < length (densityBreaks cfg). cnt \<ge> densityBreaks cfg ! k \<longrightarrow>
            int k \<le> classifyDensity cfg cnt \<and>
            classifyDensity cfg cnt < int (length (densityBreaks cfg)) \<and>
            cnt \<ge> densityBreaks cfg ! nat (classifyDensity cfg cnt)) \<and>
         classifyDensity CONFIG_analysis 42 = 4"
proof (intro conjI impI allI)
  assume a: "densityBreaks cfg \<noteq> [] \<and> cnt < densityBreaks cfg ! 0"
  have "\<forall>k. 0 \<le> k \<and> k \<le> int (length (densityBreaks cfg)) - 1 \<longrightarrow> cnt < densityBreaks cfg ! nat k"
  proof (intro allI impI)
    fix k :: int
    assume k: "0 \<le> k \<and> k \<le> int (length (densityBreaks cfg)) - 1"
    then have "nat k < length (densityBreaks cfg)" by auto
    from sorted_first_least [OF assms(2) _ this] a show "cnt < densityBreaks cfg ! nat k" by auto
  qed
  then show "classifyDensity cfg cnt = 0"
    unfolding classifyDensity_def by (rule classifyFrom_miss)
next
  fix k
  assume k: "k < length (densityBreaks cfg)" and ge: "cnt \<ge> densityBreaks cfg ! k"
  have "int k \<le> classifyFrom (densityBreaks cfg) cnt (int (length (densityBreaks cfg)) - 1) \<and>
        classifyFrom (densityBreaks cfg) cnt (int (length (densityBreaks cfg)) - 1)
          \<le> int (length (densityBreaks cfg)) - 1 \<and>
        cnt \<ge> densityBreaks cfg !
          nat (classifyFrom (densityBreaks cfg) cnt (int (length (densityBreaks cfg)) - 1))"
    using k ge by (intro classifyFrom_hit) auto
  then show "int k \<le> classifyDensity cfg cnt"
    and "classifyDensity cfg cnt < int (length (densityBreaks cfg))"
    and "cnt \<ge> densityBreaks cfg ! nat (classifyDensity cfg cnt)"
    unfolding classifyDensity_def by auto
next
  show "classifyDensity CONFIG_analysis 42 = 4"
    by (simp add: classifyDensity_def CONFIG_analysis_def classifyFrom.simps)
qed

theorem classifyDensity_highest_index_witness:
  "(0::real) \<le> 7 \<and> sorted_wrt (<) (densityBreaks CONFIG_analysis) \<and>
   densityBreaks CONFIG_analysis ! 2 \<le> 7 \<and>
   2 \<le> classifyDensity CONFIG_analysis 7 \<and> classifyDensity CONFIG_analysis 7 < 6 \<and>
   densityBreaks CONFIG_analysis ! nat (classifyDensity CONFIG_analysis 7) \<le> 7 \<and>
   (0::real) \<le> 1 / 2 \<and> sorted_wrt (<) [1, 5 :: real] \<and> (1 / 2 :: real) < [1, 5] ! 0 \<and>
   classifyDensity \<lparr> trailBufferMeters = 100, densityBreaks = [1, 5] \<rparr> (1 / 2) = 0"
proof -
  have s: "sorted_wrt (<) (densityBreaks CONFIG_analysis)" by (simp add: CONFIG_analysis_def)
  have k: "densityBreaks CONFIG_analysis ! 2 \<le> 7" by (simp add: CONFIG_analysis_def)
  have len: "length (densityBreaks CONFIG_analysis) = 6" by (simp add: CONFIG_analysis_def)
  from classifyDensity_highest_index [of 7 CONFIG_analysis, OF _ s]
  have "\<forall>k < length (densityBreaks CONFIG_analysis). densityBreaks CONFIG_analysis ! k \<le> 7 \<longrightarrow>
            int k \<le> classifyDensity CONFIG_analysis 7 \<and>
            classifyDensity CONFIG_analysis 7 < int (length (densityBreaks CONFIG_analysis)) \<and>
            densityBreaks CONFIG_analysis ! nat (classifyDensity CONFIG_analysis 7) \<le> 7"
    by simp
  from this [rule_format, of 2] k len
  have high: "2 \<le> classifyDensity CONFIG_analysis 7 \<and> classifyDensity CONFIG_analysis 7 < 6 \<and>
      densityBreaks CONFIG_analysis ! nat (classifyDensity CONFIG_analysis 7) \<le> 7"
    by simp
  have s2: "sorted_wrt (<) (densityBreaks \<lparr> trailBufferMeters = 100, densityBreaks = [1, 5] \<rparr>)"
    by simp
  from classifyDensity_highest_index
    [of "1 / 2" "\<lparr> trailBufferMeters = 100, densityBreaks = [1, 5] \<rparr>", OF _ s2]
  have low: "classifyDensity \<lparr> trailBufferMeters = 100, densityBreaks = [1, 5] \<rparr> (1 / 2) = 0"
    by simp
  from s k high low show ?thesis by simp
qed

subsection \<open>Ranking\<close>

text \<open>With the comparator \<open>key b - key a\<close> the sort is the library's stable sort by
  the negated key.\<close>

lemma insertBy_key:
  "insertBy (\<lambda>a b. key b - key a) x xs = insort_key (\<lambda>f. - key f) x (xs :: 'a list)"
  for key :: "'a \<Rightarrow> int"
  by (induction xs) auto

lemma sortBy_key:
  "sortBy (\<lambda>a b. key b - key a) xs = sort_key (\<lambda>f. - key f) xs"
  for key :: "'a \<Rightarrow> int"
  by (induction xs) (simp_all add: sortBy_def insertBy_key)

lemma sortBy_mset: "mset (sortBy (\<lambda>a b. key b - key a) xs) = mset xs"
  for key :: "'a \<Rightarrow> int"
  by (simp add: sortBy_key)

lemma sortBy_descending:
  "sorted_wrt (\<lambda>a b. key a \<ge> key b) (sortBy (\<lambda>a b. key b - key a) xs)"
  for key :: "'a \<Rightarrow> int"
proof -
  have "sorted (map (\<lambda>f. - key f) (sort_key (\<lambda>f. - key f) xs))"
    by (rule sorted_sort_key)
  then show ?thesis
    by (simp add: sortBy_key sorted_map)
qed

lemma sortBy_stable:
  "filter (\<lambda>f. key f = k) (sortBy (\<lambda>a b. key b - key a) xs) = filter (\<lambda>f. key f = k) xs"
  for key :: "'a \<Rightarrow> int"
proof -
  have "filter (\<lambda>f. - key f = - k) (sort_key (\<lambda>f. - key f) xs) = filter (\<lambda>f. - key f = - k) xs"
    by (rule sort_key_stable)
  then show ?thesis by (simp add: sortBy_key)
qed

text \<open>C7. \<open>rankWatersheds\<close> returns exactly the watersheds with a positive
  \<open>obsCount\<close> (as a multiset: none lost, none added, none with count 0), in
  non-increasing order of \<open>obsCount\<close>, and for every count the watersheds with that
  count appear in their input order; \<open>rankTrails\<close> does the same with \<open>obsNearby\<close>.\<close>

theorem rank_filtered_descending_stable:
  "mset (rankWatersheds ws) = filter_mset (\<lambda>f. obsCount f > 0) (mset ws) \<and>
   sorted_wrt (\<lambda>a b. obsCount a \<ge> obsCount b) (rankWatersheds ws) \<and>
   (\<forall>k. filter (\<lambda>f. obsCount f = k) (rankWatersheds ws)
         = filter (\<lambda>f. obsCount f = k) (filter (\<lambda>f. obsCount f > 0) ws)) \<and>
   mset (rankTrails ts) = filter_mset (\<lambda>f. obsNearby f > 0) (mset ts) \<and>
   sorted_wrt (\<lambda>a b. obsNearby a \<ge> obsNearby b) (rankTrails ts) \<and>
   (\<forall>k. filter (\<lambda>f. obsNearby f = k) (rankTrails ts)
         = filter (\<lambda>f. obsNearby f = k) (filter (\<lambda>f. obsNearby f > 0) ts))"
  unfolding rankWatersheds_def rankTrails_def
  by (intro conjI allI sortBy_descending sortBy_stable) (simp_all add: sortBy_mset)

theorem rank_filtered_descending_stable_witness:
  "rankWatersheds [mkWatershed ''a'' Malformed 2 (Num 0), mkWatershed ''b'' Malformed 0 (Num 0),
                   mkWatershed ''c'' Malformed 5 (Num 0), mkWatershed ''d'' Malformed 2 (Num 0)]
     = [mkWatershed ''c'' Malformed 5 (Num 0), mkWatershed ''a'' Malformed 2 (Num 0), mkWatershed ''d'' Malformed 2 (Num 0)] \<and>
   filter (\<lambda>f. obsCount f = 2)
     (rankWatersheds [mkWatershed ''a'' Malformed 2 (Num 0), mkWatershed ''b'' Malformed 0 (Num 0),
                      mkWatershed ''c'' Malformed 5 (Num 0), mkWatershed ''d'' Malformed 2 (Num 0)])
     = [mkWatershed ''a'' Malformed 2 (Num 0), mkWatershed ''d'' Malformed 2 (Num 0)]"
  using rank_filtered_descending_stable
    [of "[mkWatershed ''a'' Malformed 2 (Num 0), mkWatershed ''b'' Malformed 0 (Num 0),
          mkWatershed ''c'' Malformed 5 (Num 0), mkWatershed ''d'' Malformed 2 (Num 0)]" "[]"]
  by (simp add: rankWatersheds_def sortBy_def mkWatershed_def)

subsection \<open>Watershed aggregation\<close>

lemmas demo_simps = demo_def demo_point_def demo_booleanPointInPolygon_def
  demo_nearestPointOnLine_def demo_area_def mkWatershed_def mkTrail_def

lemmas run_simps = aggregateByWatershed_def resetWatershed_def calculateDensity_def
  scoreTrails_def resetTrail_def scoreTrail_def normalize_def maxObs_def bufferKm_def
  CONFIG_analysis_def fl_eval

lemma turfPoints_Nil: "turfPoints T [] = []"
  by (simp add: turfPoints_def)

lemma turfPoints_Cons:
  "turfPoints T (c # cs) = (case turf_point T c of None \<Rightarrow> turfPoints T cs | Some p \<Rightarrow> p # turfPoints T cs)"
  by (cases "turf_point T c") (simp_all add: turfPoints_def)

lemma firstMatch_Cons_0: "firstMatch T pt (g # gs) 0 = inside T pt g"
  by (simp add: firstMatch_def)

lemma firstMatch_Cons_Suc:
  "firstMatch T pt (g # gs) (Suc i) = (\<not> inside T pt g \<and> firstMatch T pt gs i)"
  by (auto simp: firstMatch_def less_Suc_eq_0_disj)

lemma length_assignPoint: "length (assignPoint T pt wss) = length wss"
  by (induction wss) (auto split: option.splits bool.splits)

lemma reset_assignPoint: "map resetWatershed (assignPoint T pt wss) = map resetWatershed wss"
  by (induction wss) (auto simp: resetWatershed_def split: option.splits bool.splits)

lemma geometry_resetWatershed: "geometry (resetWatershed w) = geometry w"
  by (simp add: resetWatershed_def)

lemma geometry_of_reset: "map geometry wss = map geometry (map resetWatershed wss)"
  by (simp add: geometry_resetWatershed)

lemma geometry_assignPoint: "map geometry (assignPoint T pt wss) = map geometry wss"
  by (induction wss) (auto split: option.splits bool.splits)

lemma obsCount_assignPoint:
  "i < length wss \<Longrightarrow>
     obsCount (assignPoint T pt wss ! i) =
       obsCount (wss ! i) + (if firstMatch T pt (map geometry wss) i then 1 else 0)"
proof (induction wss arbitrary: i)
  case Nil
  then show ?case by simp
next
  case (Cons w wss)
  show ?case
  proof (cases "inside T pt (geometry w)")
    case True
    then show ?thesis
      by (cases i) (auto simp: inside_def firstMatch_Cons_0 firstMatch_Cons_Suc)
  next
    case False
    then have step: "assignPoint T pt (w # wss) = w # assignPoint T pt wss"
      by (auto simp: inside_def split: option.splits bool.splits)
    show ?thesis
    proof (cases i)
      case 0
      with False step show ?thesis by (simp add: firstMatch_Cons_0)
    next
      case (Suc k)
      with Cons.prems have "k < length wss" by simp
      from Cons.IH [OF this] False step Suc show ?thesis
        by (simp add: firstMatch_Cons_Suc)
    qed
  qed
qed

lemma sum_assignPoint:
  "sum_list (map obsCount (assignPoint T pt wss)) =
     sum_list (map obsCount wss) + (if \<exists>g \<in> set (map geometry wss). inside T pt g then 1 else 0)"
  by (induction wss) (auto simp: inside_def split: option.splits bool.splits)

lemma countObservations_Inr:
  "countObservations T wss obs = Inr wss' \<Longrightarrow>
     length wss' = length wss \<and> map resetWatershed wss' = map resetWatershed wss \<and>
     length (turfPoints T obs) = length obs \<and>
     (\<forall>i<length wss. obsCount (wss' ! i) =
        obsCount (wss ! i) +
        int (length (filter (\<lambda>pt. firstMatch T pt (map geometry wss) i) (turfPoints T obs)))) \<and>
     sum_list (map obsCount wss') =
        sum_list (map obsCount wss) +
        int (length (filter (\<lambda>pt. \<exists>g \<in> set (map geometry wss). inside T pt g) (turfPoints T obs)))"
proof (induction obs arbitrary: wss)
  case Nil
  then show ?case by (simp add: turfPoints_Nil)
next
  case (Cons c cs)
  from Cons.prems obtain pt where pt: "turf_point T c = Some pt"
    and rest: "countObservations T (assignPoint T pt wss) cs = Inr wss'"
    by (auto split: option.splits)
  note IH = Cons.IH [OF rest]
  have g: "map geometry (assignPoint T pt wss) = map geometry wss"
    by (rule geometry_assignPoint)
  have len: "length wss' = length wss"
    using IH by (simp add: length_assignPoint)
  have rs: "map resetWatershed wss' = map resetWatershed wss"
    using IH by (simp add: reset_assignPoint)
  have pts: "length (turfPoints T (c # cs)) = length (c # cs)"
    using IH pt by (simp add: turfPoints_Cons)
  have cnt: "\<forall>i<length wss. obsCount (wss' ! i) =
        obsCount (wss ! i) +
        int (length (filter (\<lambda>pt. firstMatch T pt (map geometry wss) i) (turfPoints T (c # cs))))"
  proof (intro allI impI)
    fix i assume i: "i < length wss"
    then have "obsCount (wss' ! i) = obsCount (assignPoint T pt wss ! i) +
        int (length (filter (\<lambda>pt. firstMatch T pt (map geometry wss) i) (turfPoints T cs)))"
      using IH g by (simp add: length_assignPoint)
    with obsCount_assignPoint [OF i, of T pt] pt
    show "obsCount (wss' ! i) = obsCount (wss ! i) +
        int (length (filter (\<lambda>pt. firstMatch T pt (map geometry wss) i) (turfPoints T (c # cs))))"
      by (simp add: turfPoints_Cons)
  qed
  have "sum_list (map obsCount wss') = sum_list (map obsCount (assignPoint T pt wss)) +
        int (length (filter (\<lambda>pt. \<exists>g \<in> set (map geometry wss). inside T pt g) (turfPoints T cs)))"
    using IH g by simp
  then have total: "sum_list (map obsCount wss') = sum_list (map obsCount wss) +
        int (length (filter (\<lambda>pt. \<exists>g \<in> set (map geometry wss). inside T pt g) (turfPoints T (c # cs))))"
    using pt by (simp add: sum_assignPoint turfPoints_Cons)
  from len rs pts cnt total show ?case by blast
qed

lemma countObservations_Inl:
  "countObservations T wss obs = Inl (PointError wss') \<Longrightarrow>
     map resetWatershed wss' = map resetWatershed wss"
proof (induction obs arbitrary: wss)
  case Nil
  then show ?case by simp
next
  case (Cons c cs)
  then show ?case
    by (cases "turf_point T c") (auto simp: reset_assignPoint)
qed

lemma countObservations_returns:
  "(\<exists>wss'. countObservations T wss obs = Inr wss') = (\<forall>c \<in> set obs. turf_point T c \<noteq> None)"
  by (induction obs arbitrary: wss) (auto split: option.splits)

lemma obsCount_calculateDensity: "obsCount (calculateDensity T w) = obsCount w"
  by (simp add: calculateDensity_def Let_def split: option.splits)

lemma geometry_calculateDensity: "geometry (calculateDensity T w) = geometry w"
  by (simp add: calculateDensity_def Let_def split: option.splits)

lemma reset_calculateDensity: "resetWatershed (calculateDensity T w) = resetWatershed w"
  by (simp add: calculateDensity_def resetWatershed_def Let_def split: option.splits)

lemma reset_reset: "resetWatershed (resetWatershed w) = resetWatershed w"
  by (simp add: resetWatershed_def)

lemma aggregate_Inr:
  "aggregateByWatershed T wss obs = Inr wss' \<Longrightarrow>
     \<exists>counted. countObservations T (map resetWatershed wss) obs = Inr counted \<and>
               wss' = map (calculateDensity T) counted"
  by (auto simp: aggregateByWatershed_def split: sum.splits)

text \<open>The run returns normally exactly when \<^verbatim>\<open>turf.point\<close> accepts the coordinates of
  every observation.\<close>

lemma aggregate_returns:
  "(\<exists>wss'. aggregateByWatershed T wss obs = Inr wss') = (\<forall>c \<in> set obs. turf_point T c \<noteq> None)"
proof -
  have "(\<exists>wss'. aggregateByWatershed T wss obs = Inr wss') =
        (\<exists>counted. countObservations T (map resetWatershed wss) obs = Inr counted)"
    by (auto simp: aggregateByWatershed_def split: sum.splits)
  then show ?thesis by (simp add: countObservations_returns)
qed

text \<open>C1. When \<open>aggregateByWatershed\<close> returns, the \<open>obsCount\<close> of the watershed at
  position \<open>i\<close> is the number of observation points for which \<open>i\<close> is the first position,
  in the supplied order, whose polygon contains the point. So a point inside several
  overlapping watersheds counts for the first of them only and a point inside none
  counts nowhere: the counts add up to the number of points inside at least one
  watershed.\<close>

theorem aggregate_first_match:
  assumes "aggregateByWatershed T wss obs = Inr wss'"
  shows "length wss' = length wss \<and>
         (\<forall>i<length wss. obsCount (wss' ! i) =
            int (length (filter (\<lambda>pt. firstMatch T pt (map geometry wss) i) (turfPoints T obs)))) \<and>
         sum_list (map obsCount wss') =
            int (length (filter (\<lambda>pt. \<exists>g \<in> set (map geometry wss). inside T pt g) (turfPoints T obs)))"
proof -
  from aggregate_Inr [OF assms] obtain counted
    where c: "countObservations T (map resetWatershed wss) obs = Inr counted"
      and w: "wss' = map (calculateDensity T) counted" by blast
  have zero: "sum_list (map obsCount (map resetWatershed wss)) = 0"
    by (induction wss) (simp_all add: resetWatershed_def)
  have g: "map geometry (map resetWatershed wss) = map geometry wss"
    by (simp add: geometry_resetWatershed)
  note facts = countObservations_Inr [OF c, unfolded g zero]
  have len: "length counted = length wss" using facts by simp
  have cnt: "\<forall>i<length wss. obsCount (wss' ! i) =
            int (length (filter (\<lambda>pt. firstMatch T pt (map geometry wss) i) (turfPoints T obs)))"
  proof (intro allI impI)
    fix i assume i: "i < length wss"
    with facts have "obsCount (counted ! i) = obsCount (resetWatershed (wss ! i)) +
        int (length (filter (\<lambda>pt. firstMatch T pt (map geometry wss) i) (turfPoints T obs)))"
      by simp
    with i len w show "obsCount (wss' ! i) =
            int (length (filter (\<lambda>pt. firstMatch T pt (map geometry wss) i) (turfPoints T obs)))"
      by (simp add: obsCount_calculateDensity resetWatershed_def)
  qed
  have "map obsCount wss' = map obsCount counted"
    using w by (simp add: obsCount_calculateDensity)
  with facts have total: "sum_list (map obsCount wss') =
            int (length (filter (\<lambda>pt. \<exists>g \<in> set (map geometry wss). inside T pt g) (turfPoints T obs)))"
    by simp
  from len w cnt total show ?thesis by simp
qed

theorem aggregate_first_match_witness:
  "aggregateByWatershed demo
     [mkWatershed ''A'' (Rect 0 0 2 2) 5 (Num 9), mkWatershed ''B'' (Rect 1 1 3 3) 7 (Num 9)]
     [[3/2, 3/2], [10, 10]]
   = Inr [mkWatershed ''A'' (Rect 0 0 2 2) 1 (Num (1/4)), mkWatershed ''B'' (Rect 1 1 3 3) 0 (Num 0)] \<and>
   inside demo (3/2, 3/2) (Rect 0 0 2 2) \<and> inside demo (3/2, 3/2) (Rect 1 1 3 3) \<and>
   length (filter (\<lambda>pt. firstMatch demo pt [Rect 0 0 2 2, Rect 1 1 3 3] 0)
             (turfPoints demo [[3/2, 3/2], [10, 10]])) = 1 \<and>
   length (filter (\<lambda>pt. firstMatch demo pt [Rect 0 0 2 2, Rect 1 1 3 3] 1)
             (turfPoints demo [[3/2, 3/2], [10, 10]])) = 0"
proof -
  have run: "aggregateByWatershed demo
     [mkWatershed ''A'' (Rect 0 0 2 2) 5 (Num 9), mkWatershed ''B'' (Rect 1 1 3 3) 7 (Num 9)]
     [[3/2, 3/2], [10, 10]]
   = Inr [mkWatershed ''A'' (Rect 0 0 2 2) 1 (Num (1/4)), mkWatershed ''B'' (Rect 1 1 3 3) 0 (Num 0)]"
    by (simp add: run_simps demo_simps flpos_eval [where e = 2] flpos_eval [where e = "- 2"]
        flpos_eval [where e = "- 1022"])
  have ins: "inside demo (3/2, 3/2) (Rect 0 0 2 2) \<and> inside demo (3/2, 3/2) (Rect 1 1 3 3)"
    by (simp add: inside_def demo_simps)
  note first = aggregate_first_match [OF run, THEN conjunct2, THEN conjunct1, rule_format]
  from first [of 0] have "length (filter (\<lambda>pt. firstMatch demo pt [Rect 0 0 2 2, Rect 1 1 3 3] 0)
             (turfPoints demo [[3/2, 3/2], [10, 10]])) = 1"
    by (simp add: mkWatershed_def)
  moreover from first [of 1] have "length (filter (\<lambda>pt. firstMatch demo pt [Rect 0 0 2 2, Rect 1 1 3 3] 1)
             (turfPoints demo [[3/2, 3/2], [10, 10]])) = 0"
    by (simp add: mkWatershed_def)
  ultimately show ?thesis using run ins by simp
qed

subsection \<open>Density\<close>

lemma calculateDensity_value:
  "obsDensity (calculateDensity T w) =
     (case turf_area T (geometry w) of
        None \<Rightarrow> Num 0
      | Some a \<Rightarrow>
          if jslt (Num 0) (fdiv a (Num 1000000))
          then toFixed 2 (fdiv (Num (real_of_int (obsCount w))) (fdiv a (Num 1000000)))
          else Num 0)"
  by (simp add: calculateDensity_def Let_def split: option.splits)

lemma aggregate_length:
  "aggregateByWatershed T wss obs = Inr wss' \<Longrightarrow> length wss' = length wss"
  using aggregate_Inr [of T wss obs wss'] countObservations_Inr [of T "map resetWatershed wss" obs]
  by auto

lemma aggregate_obsCount:
  assumes "aggregateByWatershed T wss obs = Inr wss'" and "i < length wss"
  shows "0 \<le> obsCount (wss' ! i)"
proof -
  from aggregate_Inr [OF assms(1)] obtain counted
    where c: "countObservations T (map resetWatershed wss) obs = Inr counted"
      and r: "wss' = map (calculateDensity T) counted" by blast
  from countObservations_Inr [OF c] assms(2)
  have "length counted = length wss" and "0 \<le> obsCount (counted ! i)"
    by (simp_all add: resetWatershed_def)
  with r assms(2) show ?thesis by (simp add: obsCount_calculateDensity)
qed

lemma aggregate_obsCount_nonneg:
  assumes "aggregateByWatershed T wss obs = Inr wss'" and "w \<in> set wss'"
  shows "0 \<le> obsCount w"
proof -
  from assms(2) obtain i where i: "i < length wss'" and w: "w = wss' ! i"
    by (auto simp: in_set_conv_nth)
  have len: "length wss' = length wss" by (rule aggregate_length [OF assms(1)])
  from aggregate_obsCount [OF assms(1), of i] i len w show ?thesis by simp
qed

text \<open>A positive number is an infinity or a positive finite number.\<close>

lemma jslt_zero_cases: "jslt (Num 0) k \<Longrightarrow> k = PosInf \<or> (\<exists>a. k = Num a \<and> 0 < a)"
  by (cases k) simp_all

text \<open>The quotient of a count by a positive area, printed with two decimals: never
  \<^verbatim>\<open>NaN\<close>, never negative, infinite exactly when the quotient overflows.\<close>

lemma density_quotient:
  assumes "0 \<le> c" and "jslt (Num 0) k"
  shows "(toFixed 2 (fdiv (Num c) k) = PosInf \<and> fdiv (Num c) k = PosInf) \<or>
         (\<exists>s q. toFixed 2 (fdiv (Num c) k) = Num s \<and> 0 \<le> s \<and> fdiv (Num c) k = Num q)"
proof -
  from jslt_zero_cases [OF assms(2)] show ?thesis
  proof
    assume "k = PosInf"
    then show ?thesis by (simp add: roundHalfUp_zero fl_zero)
  next
    assume "\<exists>a. k = Num a \<and> 0 < a"
    then obtain a where k: "k = Num a" and a: "0 < a" by blast
    have q: "fdiv (Num c) k = fl (c / a)" using k a by simp
    have "0 \<le> c / a" using assms(1) a by simp
    from fl_nonneg [OF this] show ?thesis
    proof
      assume "fl (c / a) = PosInf"
      with q show ?thesis by simp
    next
      assume "\<exists>r. fl (c / a) = Num r \<and> 0 \<le> r"
      then obtain r where r: "fl (c / a) = Num r" and "0 \<le> r" by blast
      from toFixed_finite_nonneg [OF this(2), of 2] q r show ?thesis by auto
    qed
  qed
qed

lemma density_quotient_finite:
  assumes "0 \<le> c" and "0 < a" and "c < a * 2 powi 1023"
  shows "\<exists>q. fdiv (Num c) (Num a) = Num q"
proof -
  have "c / a < 2 powi 1023" using assms(2,3) by (simp add: field_simps)
  moreover have "0 \<le> c / a" using assms(1,2) by simp
  ultimately have "\<exists>q. fl (c / a) = Num q" by (intro fl_finite)
  with assms(2) show ?thesis by simp
qed

text \<open>C4, as the code has it. When \<open>aggregateByWatershed\<close> returns, the \<open>obsDensity\<close> of
  every watershed is never \<^verbatim>\<open>NaN\<close> and never negative. It is exactly 0 when the area
  function throws or the area in square kilometres is not positive. Otherwise it is the
  binary64 quotient of \<open>obsCount\<close> by that area, printed with two decimals and read back;
  it is finite whenever that quotient is, in particular whenever the count is below
  \<open>2^1023\<close> times the area.\<close>

theorem aggregate_density_value:
  assumes "aggregateByWatershed T wss obs = Inr wss'"
  shows "\<forall>w \<in> set wss'.
           (obsDensity w = PosInf \<or> (\<exists>s. obsDensity w = Num s \<and> 0 \<le> s)) \<and>
           (case turf_area T (geometry w) of
              None \<Rightarrow> obsDensity w = Num 0
            | Some a \<Rightarrow>
                if jslt (Num 0) (fdiv a (Num 1000000))
                then obsDensity w =
                       toFixed 2 (fdiv (Num (real_of_int (obsCount w))) (fdiv a (Num 1000000))) \<and>
                     (\<forall>q. fdiv (Num (real_of_int (obsCount w))) (fdiv a (Num 1000000)) = Num q
                        \<longrightarrow> (\<exists>s. obsDensity w = Num s \<and> 0 \<le> s)) \<and>
                     (\<forall>k. fdiv a (Num 1000000) = Num k \<and> real_of_int (obsCount w) < k * 2 powi 1023
                        \<longrightarrow> (\<exists>s. obsDensity w = Num s))
                else obsDensity w = Num 0)"
proof
  fix w assume w: "w \<in> set wss'"
  from aggregate_Inr [OF assms] obtain counted
    where r: "wss' = map (calculateDensity T) counted" by blast
  from w r obtain v where wv: "w = calculateDensity T v" by auto
  have cnt: "obsCount w = obsCount v" and geo: "geometry w = geometry v"
    using wv by (simp_all add: obsCount_calculateDensity geometry_calculateDensity)
  have nonneg: "0 \<le> real_of_int (obsCount w)"
    using aggregate_obsCount_nonneg [OF assms w] by simp
  have val: "obsDensity w =
     (case turf_area T (geometry w) of
        None \<Rightarrow> Num 0
      | Some a \<Rightarrow>
          if jslt (Num 0) (fdiv a (Num 1000000))
          then toFixed 2 (fdiv (Num (real_of_int (obsCount w))) (fdiv a (Num 1000000)))
          else Num 0)"
    unfolding cnt geo unfolding wv by (rule calculateDensity_value)
  show "(obsDensity w = PosInf \<or> (\<exists>s. obsDensity w = Num s \<and> 0 \<le> s)) \<and>
           (case turf_area T (geometry w) of
              None \<Rightarrow> obsDensity w = Num 0
            | Some a \<Rightarrow>
                if jslt (Num 0) (fdiv a (Num 1000000))
                then obsDensity w =
                       toFixed 2 (fdiv (Num (real_of_int (obsCount w))) (fdiv a (Num 1000000))) \<and>
                     (\<forall>q. fdiv (Num (real_of_int (obsCount w))) (fdiv a (Num 1000000)) = Num q
                        \<longrightarrow> (\<exists>s. obsDensity w = Num s \<and> 0 \<le> s)) \<and>
                     (\<forall>k. fdiv a (Num 1000000) = Num k \<and> real_of_int (obsCount w) < k * 2 powi 1023
                        \<longrightarrow> (\<exists>s. obsDensity w = Num s))
                else obsDensity w = Num 0)"
  proof (cases "turf_area T (geometry w)")
    case None
    with val show ?thesis by simp
  next
    case (Some a)
    show ?thesis
    proof (cases "jslt (Num 0) (fdiv a (Num 1000000))")
      case False
      with val Some show ?thesis by simp
    next
      case True
      with val Some have d: "obsDensity w =
          toFixed 2 (fdiv (Num (real_of_int (obsCount w))) (fdiv a (Num 1000000)))"
        by simp
      note q = density_quotient [OF nonneg True]
      have range: "obsDensity w = PosInf \<or> (\<exists>s. obsDensity w = Num s \<and> 0 \<le> s)"
        using q unfolding d by auto
      have finq: "\<exists>s. obsDensity w = Num s \<and> 0 \<le> s"
        if "fdiv (Num (real_of_int (obsCount w))) (fdiv a (Num 1000000)) = Num q" for q
        using q that unfolding d by auto
      have fin: "\<exists>s. obsDensity w = Num s"
        if k: "fdiv a (Num 1000000) = Num k \<and> real_of_int (obsCount w) < k * 2 powi 1023" for k
      proof -
        from True k have "0 < k" by simp
        from density_quotient_finite [OF nonneg this] k
        have "\<exists>q. fdiv (Num (real_of_int (obsCount w))) (fdiv a (Num 1000000)) = Num q" by simp
        with q show ?thesis unfolding d by auto
      qed
      from range d finq fin Some True show ?thesis by simp
    qed
  qed
qed

text \<open>One observation in a watershed of 3 square kilometres: the density stored is the
  binary64 nearest to 0.33, not the quotient. One observation in a watershed whose area
  is the smallest positive binary64: the guard lets the area pass, the quotient overflows
  and the density stored is infinite.\<close>

theorem aggregate_density_unrounded_counterexample:
  "aggregateByWatershed demo [mkWatershed ''W'' (Rect 0 0 3 1) 0 (Num 0)] [[1, 1 / 2]]
     = Inr [mkWatershed ''W'' (Rect 0 0 3 1) 1 (Num (5944751508129055 / 18014398509481984))] \<and>
   fdiv (Num 1) (fdiv (Num 3000000) (Num 1000000)) = Num (6004799503160661 / 18014398509481984) \<and>
   Num (5944751508129055 / 18014398509481984) \<noteq> Num (6004799503160661 / 18014398509481984) \<and>
   aggregateByWatershed demo [mkWatershed ''V'' (Rect 0 0 1 (2 powi (- 1074))) 0 (Num 0)] [[1 / 2, 0]]
     = Inr [mkWatershed ''V'' (Rect 0 0 1 (2 powi (- 1074))) 1 PosInf]"
  by (simp add: run_simps demo_simps flpos_eval [where e = 1] flpos_eval [where e = "- 2"]
      flpos_eval [where e = "- 1022"] flpos_eval [where e = 1023])

theorem aggregate_density_value_witness:
  "aggregateByWatershed demo [mkWatershed ''W'' (Rect 0 0 3 1) 0 (Num 0)] [[1, 1 / 2]]
     = Inr [mkWatershed ''W'' (Rect 0 0 3 1) 1 (Num (5944751508129055 / 18014398509481984))] \<and>
   turf_area demo (Rect 0 0 3 1) = Some (Num 3000000) \<and>
   jslt (Num 0) (fdiv (Num 3000000) (Num 1000000)) \<and>
   Num (5944751508129055 / 18014398509481984)
     = toFixed 2 (fdiv (Num 1) (fdiv (Num 3000000) (Num 1000000)))"
proof -
  have run: "aggregateByWatershed demo [mkWatershed ''W'' (Rect 0 0 3 1) 0 (Num 0)] [[1, 1 / 2]]
     = Inr [mkWatershed ''W'' (Rect 0 0 3 1) 1 (Num (5944751508129055 / 18014398509481984))]"
    by (simp add: run_simps demo_simps flpos_eval [where e = 1] flpos_eval [where e = "- 2"])
  have area: "turf_area demo (Rect 0 0 3 1) = Some (Num 3000000)"
    by (simp add: demo_simps)
  have pos: "jslt (Num 0) (fdiv (Num 3000000) (Num 1000000))"
    by (simp add: fl_eval flpos_eval [where e = 1])
  from aggregate_density_value [OF run] area pos
  have "Num (5944751508129055 / 18014398509481984)
     = toFixed 2 (fdiv (Num 1) (fdiv (Num 3000000) (Num 1000000)))"
    by (simp add: mkWatershed_def)
  with run area pos show ?thesis by simp
qed

text \<open>Three observations in 40 square kilometres: the binary64 quotient is below 0.075
  and the density stored is 0.07.\<close>

lemma density_three_in_forty:
  "aggregateByWatershed demo [mkWatershed ''U'' (Rect 0 0 8 5) 0 (Num 0)] [[1, 1], [2, 2], [3, 3]]
     = Inr [mkWatershed ''U'' (Rect 0 0 8 5) 3 (Num (1261007895663739 / 18014398509481984))] \<and>
   fl (7 / 100) = Num (1261007895663739 / 18014398509481984)"
  by (simp add: run_simps demo_simps flpos_eval [where e = 5] flpos_eval [where e = "- 4"])

subsection \<open>Trail scoring\<close>

lemma reset_scoreTrail: "resetTrail (scoreTrail T bufKm pt t) = resetTrail t"
  by (simp add: scoreTrail_def resetTrail_def split: option.splits)

lemma geometry_scoreTrail: "geometry (scoreTrail T bufKm pt t) = geometry t"
  by (simp add: scoreTrail_def split: option.splits)

lemma obsNearby_scoreTrail:
  "obsNearby (scoreTrail T bufKm pt t) =
     obsNearby t + (if near T bufKm pt (geometry t) then 1 else 0)"
  by (simp add: scoreTrail_def near_def split: option.splits)

lemma scoreObservations_Inr:
  "scoreObservations T bufKm ts obs = Inr ts' \<Longrightarrow>
     length ts' = length ts \<and> map resetTrail ts' = map resetTrail ts \<and>
     map geometry ts' = map geometry ts \<and>
     (\<forall>i<length ts. obsNearby (ts' ! i) =
        obsNearby (ts ! i) +
        int (length (filter (\<lambda>pt. near T bufKm pt (geometry (ts ! i))) (turfPoints T obs))))"
proof (induction obs arbitrary: ts)
  case Nil
  then show ?case by (simp add: turfPoints_Nil)
next
  case (Cons c cs)
  from Cons.prems obtain pt where pt: "turf_point T c = Some pt"
    and rest: "scoreObservations T bufKm (map (scoreTrail T bufKm pt) ts) cs = Inr ts'"
    by (auto split: option.splits)
  note IH = Cons.IH [OF rest]
  have len: "length ts' = length ts" using IH by simp
  have rs: "map resetTrail ts' = map resetTrail ts"
    using IH by (simp add: reset_scoreTrail)
  have geo: "map geometry ts' = map geometry ts"
    using IH by (simp add: geometry_scoreTrail)
  have cnt: "\<forall>i<length ts. obsNearby (ts' ! i) =
        obsNearby (ts ! i) +
        int (length (filter (\<lambda>pt. near T bufKm pt (geometry (ts ! i))) (turfPoints T (c # cs))))"
  proof (intro allI impI)
    fix i assume i: "i < length ts"
    with IH have "obsNearby (ts' ! i) = obsNearby (scoreTrail T bufKm pt (ts ! i)) +
        int (length (filter (\<lambda>pt. near T bufKm pt (geometry (ts ! i))) (turfPoints T cs)))"
      by (simp add: geometry_scoreTrail)
    then show "obsNearby (ts' ! i) = obsNearby (ts ! i) +
        int (length (filter (\<lambda>pt. near T bufKm pt (geometry (ts ! i))) (turfPoints T (c # cs))))"
      using pt by (simp add: obsNearby_scoreTrail turfPoints_Cons)
  qed
  from len rs geo cnt show ?case by blast
qed

lemma scoreObservations_Inl:
  "scoreObservations T bufKm ts obs = Inl (PointError ts') \<Longrightarrow>
     map resetTrail ts' = map resetTrail ts"
proof (induction obs arbitrary: ts)
  case Nil
  then show ?case by simp
next
  case (Cons c cs)
  show ?case
  proof (cases "turf_point T c")
    case None
    with Cons.prems show ?thesis by simp
  next
    case (Some pt)
    with Cons.prems have "scoreObservations T bufKm (map (scoreTrail T bufKm pt) ts) cs = Inl (PointError ts')"
      by simp
    from Cons.IH [OF this] show ?thesis by (simp add: reset_scoreTrail)
  qed
qed

lemma scoreObservations_returns:
  "(\<exists>ts'. scoreObservations T bufKm ts obs = Inr ts') = (\<forall>c \<in> set obs. turf_point T c \<noteq> None)"
  by (induction obs arbitrary: ts) (auto split: option.splits)

lemma foldl_max_Max: "foldl max a xs = Max (insert a (set xs))" for a :: int
proof (induction xs arbitrary: a)
  case Nil
  then show ?case by simp
next
  case (Cons x xs)
  have "Max (insert (max a x) (set xs)) = Max (insert a (insert x (set xs)))"
    by (cases "xs = []") (simp_all add: max.assoc)
  with Cons show ?case by simp
qed

lemma maxObs_Max: "maxObs ts = Max (insert 1 (obsNearby ` set ts))"
  by (simp add: maxObs_def foldl_max_Max)

lemma maxObs_ge_1: "1 \<le> maxObs ts"
  by (simp add: maxObs_Max)

lemma maxObs_upper: "t \<in> set ts \<Longrightarrow> obsNearby t \<le> maxObs ts"
  by (simp add: maxObs_Max)

lemma maxObs_attained:
  assumes "t \<in> set ts" and "0 < obsNearby t"
  shows "\<exists>u \<in> set ts. obsNearby u = maxObs ts"
proof -
  have "Max (insert 1 (obsNearby ` set ts)) \<in> insert 1 (obsNearby ` set ts)"
    by (rule Max_in) simp_all
  then have "maxObs ts = 1 \<or> maxObs ts \<in> obsNearby ` set ts"
    by (simp add: maxObs_Max)
  moreover have "maxObs ts = 1 \<Longrightarrow> obsNearby t = maxObs ts"
    using maxObs_upper [OF assms(1)] assms(2) by simp
  ultimately show ?thesis using assms(1) by auto
qed

lemma obsNearby_normalize: "map obsNearby (normalize ts) = map obsNearby ts"
  by (simp add: normalize_def)

lemma maxObs_normalize: "maxObs (normalize ts) = maxObs ts"
  by (simp add: maxObs_def obsNearby_normalize)

lemma normalize_member:
  "t \<in> set (normalize ts) \<Longrightarrow>
     \<exists>u \<in> set ts. obsNearby t = obsNearby u \<and> geometry t = geometry u \<and>
       scoreNorm t =
         toFixed 3 (fdiv (Num (real_of_int (obsNearby u))) (Num (real_of_int (maxObs ts))))"
  by (auto simp: normalize_def)

lemma reset_normalize: "map resetTrail (normalize ts) = map resetTrail ts"
  by (simp add: normalize_def resetTrail_def)

lemma scoreTrails_Inr:
  "scoreTrails T cfg ts obs b = Inr ts' \<Longrightarrow>
     \<exists>scored. scoreObservations T (bufferKm cfg b) (map resetTrail ts) obs = Inr scored \<and>
              ts' = normalize scored"
  by (auto simp: scoreTrails_def split: sum.splits)

lemma scoreTrails_returns:
  "(\<exists>ts'. scoreTrails T cfg ts obs b = Inr ts') = (\<forall>c \<in> set obs. turf_point T c \<noteq> None)"
proof -
  have "(\<exists>ts'. scoreTrails T cfg ts obs b = Inr ts') =
        (\<exists>scored. scoreObservations T (bufferKm cfg b) (map resetTrail ts) obs = Inr scored)"
    by (auto simp: scoreTrails_def split: sum.splits)
  then show ?thesis by (simp add: scoreObservations_returns)
qed

lemma scoreTrails_counts:
  assumes "scoreTrails T cfg ts obs b = Inr ts'"
  shows "length ts' = length ts \<and>
         (\<forall>i<length ts. obsNearby (ts' ! i) =
            int (length (filter (\<lambda>pt. near T (bufferKm cfg b) pt (geometry (ts ! i)))
                           (turfPoints T obs))))"
proof -
  from scoreTrails_Inr [OF assms] obtain scored
    where s: "scoreObservations T (bufferKm cfg b) (map resetTrail ts) obs = Inr scored"
      and r: "ts' = normalize scored" by blast
  note facts = scoreObservations_Inr [OF s]
  have len: "length scored = length ts" using facts by simp
  have "\<forall>i<length ts. obsNearby (ts' ! i) =
            int (length (filter (\<lambda>pt. near T (bufferKm cfg b) pt (geometry (ts ! i)))
                           (turfPoints T obs)))"
  proof (intro allI impI)
    fix i assume i: "i < length ts"
    have "obsNearby (ts' ! i) = map obsNearby (normalize scored) ! i"
      using i len r by (simp add: normalize_def)
    also have "\<dots> = obsNearby (scored ! i)"
      using i len by (simp add: obsNearby_normalize)
    also have "\<dots> = int (length (filter (\<lambda>pt. near T (bufferKm cfg b) pt (geometry (ts ! i)))
                           (turfPoints T obs)))"
      using facts i by (simp add: resetTrail_def)
    finally show "obsNearby (ts' ! i) =
            int (length (filter (\<lambda>pt. near T (bufferKm cfg b) pt (geometry (ts ! i)))
                           (turfPoints T obs)))" .
  qed
  with len r show ?thesis by (simp add: normalize_def)
qed

text \<open>C2. When \<open>scoreTrails\<close> returns, the \<open>obsNearby\<close> of the trail at position \<open>i\<close>
  is the number of observation points whose distance to that trail is at most the buffer.
  The count of a trail does not depend on the other trails: every trail is tested for
  every point, and one point may count for several trails.\<close>

theorem scoreTrails_all_matches:
  assumes "scoreTrails T cfg ts obs b = Inr ts'"
  shows "length ts' = length ts \<and>
         (\<forall>i<length ts. obsNearby (ts' ! i) =
            int (length (filter (\<lambda>pt. near T (bufferKm cfg b) pt (geometry (ts ! i)))
                           (turfPoints T obs))))"
  using assms by (rule scoreTrails_counts)

theorem scoreTrails_all_matches_witness:
  "scoreTrails demo CONFIG_analysis
     [mkTrail ''T1'' (HLine 0 0 1) 9 (Num 9), mkTrail ''T2'' (HLine (1 / 8) 0 1) 9 (Num 9)]
     [[1 / 2, 1 / 16], [1 / 2, 5]] (Number (Num 100))
   = Inr [mkTrail ''T1'' (HLine 0 0 1) 1 (Num 1), mkTrail ''T2'' (HLine (1 / 8) 0 1) 1 (Num 1)] \<and>
   near demo (bufferKm CONFIG_analysis (Number (Num 100))) (1 / 2, 1 / 16) (HLine 0 0 1) \<and>
   near demo (bufferKm CONFIG_analysis (Number (Num 100))) (1 / 2, 1 / 16) (HLine (1 / 8) 0 1) \<and>
   length (filter (\<lambda>pt. near demo (bufferKm CONFIG_analysis (Number (Num 100))) pt (HLine 0 0 1))
             (turfPoints demo [[1 / 2, 1 / 16], [1 / 2, 5]])) = 1 \<and>
   length (filter (\<lambda>pt. near demo (bufferKm CONFIG_analysis (Number (Num 100))) pt (HLine (1 / 8) 0 1))
             (turfPoints demo [[1 / 2, 1 / 16], [1 / 2, 5]])) = 1"
proof -
  have run: "scoreTrails demo CONFIG_analysis
     [mkTrail ''T1'' (HLine 0 0 1) 9 (Num 9), mkTrail ''T2'' (HLine (1 / 8) 0 1) 9 (Num 9)]
     [[1 / 2, 1 / 16], [1 / 2, 5]] (Number (Num 100))
   = Inr [mkTrail ''T1'' (HLine 0 0 1) 1 (Num 1), mkTrail ''T2'' (HLine (1 / 8) 0 1) 1 (Num 1)]"
    by (simp add: run_simps demo_simps flpos_eval [where e = "- 4"] flpos_eval [where e = 0])
  have nr: "near demo (bufferKm CONFIG_analysis (Number (Num 100))) (1 / 2, 1 / 16) (HLine 0 0 1) \<and>
            near demo (bufferKm CONFIG_analysis (Number (Num 100))) (1 / 2, 1 / 16) (HLine (1 / 8) 0 1)"
    by (simp add: near_def run_simps demo_simps flpos_eval [where e = "- 4"])
  note every = scoreTrails_all_matches [OF run, THEN conjunct2, rule_format]
  from every [of 0] have "length (filter (\<lambda>pt. near demo (bufferKm CONFIG_analysis (Number (Num 100))) pt (HLine 0 0 1))
             (turfPoints demo [[1 / 2, 1 / 16], [1 / 2, 5]])) = 1"
    by (simp add: mkTrail_def)
  moreover from every [of 1] have "length (filter (\<lambda>pt. near demo (bufferKm CONFIG_analysis (Number (Num 100))) pt (HLine (1 / 8) 0 1))
             (turfPoints demo [[1 / 2, 1 / 16], [1 / 2, 5]])) = 1"
    by (simp add: mkTrail_def)
  ultimately show ?thesis using run nr by simp
qed

lemma scoreTrails_obsNearby_nonneg:
  assumes "scoreTrails T cfg ts obs b = Inr ts'" and "t \<in> set ts'"
  shows "0 \<le> obsNearby t"
proof -
  from assms(2) obtain i where i: "i < length ts'" and t: "t = ts' ! i"
    by (auto simp: in_set_conv_nth)
  from scoreTrails_counts [OF assms(1)] i t show ?thesis by simp
qed

lemma scoreTrails_score_value:
  assumes "scoreTrails T cfg ts obs b = Inr ts'" and "t \<in> set ts'"
  shows "scoreNorm t =
           toFixed 3 (fdiv (Num (real_of_int (obsNearby t))) (Num (real_of_int (maxObs ts'))))"
proof -
  from scoreTrails_Inr [OF assms(1)] obtain scored where r: "ts' = normalize scored" by blast
  have "maxObs ts' = maxObs scored" unfolding r by (rule maxObs_normalize)
  with normalize_member [of t scored] assms(2) r show ?thesis by auto
qed

text \<open>The quotient of a count by a normaliser that is at least 1 and at least the count,
  printed with three decimals: a finite number from 0 to 1, and 1 for the normaliser
  itself.\<close>

lemma score_quotient:
  assumes "0 \<le> k" and "k \<le> m" and "1 \<le> m"
  shows "\<exists>s. toFixed 3 (fdiv (Num (real_of_int k)) (Num (real_of_int m))) = Num s \<and>
             0 \<le> s \<and> s \<le> 1"
proof -
  have q: "fdiv (Num (real_of_int k)) (Num (real_of_int m)) = fl (real_of_int k / real_of_int m)"
    using assms(3) by simp
  have "0 \<le> real_of_int k / real_of_int m" using assms by simp
  moreover have "real_of_int k / real_of_int m \<le> 1" using assms by (simp add: divide_le_eq_1)
  ultimately obtain r where r: "fl (real_of_int k / real_of_int m) = Num r"
    and "0 \<le> r" and "r \<le> 1"
    using fl_unit_interval by blast
  from toFixed_unit_interval [OF this(2,3), of 3] q r show ?thesis by simp
qed

lemma score_quotient_top:
  assumes "1 \<le> m"
  shows "toFixed 3 (fdiv (Num (real_of_int m)) (Num (real_of_int m))) = Num 1"
proof -
  have "fdiv (Num (real_of_int m)) (Num (real_of_int m)) = fl 1" using assms by simp
  then show ?thesis by (simp only: fl_one toFixed_one)
qed

text \<open>C3. When \<open>scoreTrails\<close> returns, the normaliser is the maximum of 1 and of all
  \<open>obsNearby\<close>, hence at least 1 and never a zero divisor; every \<open>scoreNorm\<close> is the
  binary64 quotient of the count by it, printed with three decimals and read back, and
  is a finite number from 0 to 1; and if some trail has a positive count, some trail has
  \<open>scoreNorm\<close> exactly 1.\<close>

theorem scoreTrails_score_bounds:
  assumes "scoreTrails T cfg ts obs b = Inr ts'"
  shows "maxObs ts' = Max (insert 1 (obsNearby ` set ts')) \<and> 1 \<le> maxObs ts' \<and>
         (\<forall>t \<in> set ts'.
            scoreNorm t =
              toFixed 3 (fdiv (Num (real_of_int (obsNearby t))) (Num (real_of_int (maxObs ts')))) \<and>
            (\<exists>s. scoreNorm t = Num s \<and> 0 \<le> s \<and> s \<le> 1)) \<and>
         ((\<exists>t \<in> set ts'. 0 < obsNearby t) \<longrightarrow> (\<exists>t \<in> set ts'. scoreNorm t = Num 1))"
proof -
  have val: "scoreNorm t =
      toFixed 3 (fdiv (Num (real_of_int (obsNearby t))) (Num (real_of_int (maxObs ts'))))"
    if "t \<in> set ts'" for t
    using assms that by (rule scoreTrails_score_value)
  have bounds: "\<exists>s. scoreNorm t = Num s \<and> 0 \<le> s \<and> s \<le> 1" if t: "t \<in> set ts'" for t
  proof -
    have n: "0 \<le> obsNearby t" by (rule scoreTrails_obsNearby_nonneg [OF assms t])
    have u: "obsNearby t \<le> maxObs ts'" by (rule maxObs_upper [OF t])
    have p: "1 \<le> maxObs ts'" by (rule maxObs_ge_1)
    from score_quotient [OF n u p] show ?thesis unfolding val [OF t] .
  qed
  have top: "\<exists>t \<in> set ts'. scoreNorm t = Num 1" if "\<exists>t \<in> set ts'. 0 < obsNearby t"
  proof -
    from that obtain t where "t \<in> set ts'" and "0 < obsNearby t" by blast
    from maxObs_attained [OF this] obtain u where u: "u \<in> set ts'"
      and eq: "obsNearby u = maxObs ts'" by blast
    from val [OF u] eq score_quotient_top [OF maxObs_ge_1, of ts'] have "scoreNorm u = Num 1"
      by simp
    with u show ?thesis by blast
  qed
  from val bounds top show ?thesis
    by (simp add: maxObs_Max [symmetric] maxObs_ge_1)
qed

theorem scoreTrails_score_bounds_witness:
  "scoreTrails demo CONFIG_analysis
     [mkTrail ''T1'' (HLine 0 0 1) 9 (Num 9), mkTrail ''T2'' (HLine (1 / 8) 0 1) 9 (Num 9)]
     [[1 / 2, 1 / 16], [1 / 2, - 1 / 16]] (Number (Num 100))
   = Inr [mkTrail ''T1'' (HLine 0 0 1) 2 (Num 1), mkTrail ''T2'' (HLine (1 / 8) 0 1) 1 (Num (1 / 2))] \<and>
   maxObs [mkTrail ''T1'' (HLine 0 0 1) 2 (Num 1), mkTrail ''T2'' (HLine (1 / 8) 0 1) 1 (Num (1 / 2))] = 2 \<and>
   (\<exists>t \<in> set [mkTrail ''T1'' (HLine 0 0 1) 2 (Num 1), mkTrail ''T2'' (HLine (1 / 8) 0 1) 1 (Num (1 / 2))].
      scoreNorm t = Num 1)"
proof -
  have run: "scoreTrails demo CONFIG_analysis
     [mkTrail ''T1'' (HLine 0 0 1) 9 (Num 9), mkTrail ''T2'' (HLine (1 / 8) 0 1) 9 (Num 9)]
     [[1 / 2, 1 / 16], [1 / 2, - 1 / 16]] (Number (Num 100))
   = Inr [mkTrail ''T1'' (HLine 0 0 1) 2 (Num 1), mkTrail ''T2'' (HLine (1 / 8) 0 1) 1 (Num (1 / 2))]"
    by (simp add: run_simps demo_simps flpos_eval [where e = "- 4"] flpos_eval [where e = 0]
        flpos_eval [where e = "- 1"])
  have pos: "\<exists>t \<in> set [mkTrail ''T1'' (HLine 0 0 1) 2 (Num 1), mkTrail ''T2'' (HLine (1 / 8) 0 1) 1 (Num (1 / 2))].
      0 < obsNearby t"
    by (simp add: mkTrail_def)
  have m: "maxObs [mkTrail ''T1'' (HLine 0 0 1) 2 (Num 1), mkTrail ''T2'' (HLine (1 / 8) 0 1) 1 (Num (1 / 2))] = 2"
    by (simp add: maxObs_def mkTrail_def)
  from scoreTrails_score_bounds [OF run] pos have
    "\<exists>t \<in> set [mkTrail ''T1'' (HLine 0 0 1) 2 (Num 1), mkTrail ''T2'' (HLine (1 / 8) 0 1) 1 (Num (1 / 2))].
      scoreNorm t = Num 1"
    by blast
  with run m show ?thesis by blast
qed

text \<open>Three of eighty: the binary64 quotient is below 0.0375 and the score printed is
  0.037.\<close>

lemma score_three_of_eighty:
  "toFixed 3 (fdiv (Num (real_of_int 3)) (Num (real_of_int 80)))
     = Num (5332261958806667 / 144115188075855872) \<and>
   fl (37 / 1000) = Num (5332261958806667 / 144115188075855872)"
  by (simp add: fl_eval flpos_eval [where e = "- 5"])

subsection \<open>The buffer argument\<close>

text \<open>Underflow: a quotient rounds to zero exactly when its magnitude is at most half of
  the smallest positive binary64, \<open>2^-1074\<close>.\<close>

lemma flpos_underflow:
  assumes "0 \<le> x" and "x \<le> 2 powi (- 1075)"
  shows "flpos x = Num 0"
proof -
  have "(2::real) powi (- 1075) < 2 powi (- 1021)" by simp
  with assms(2) have "x < 2 powi (- 1022 + 1)" by simp
  then have b: "binade x = - 1022" by (intro binade_eqI) simp_all
  have half: "(2::real) powi (- 1075) / 2 powi (- 1074) = 1 / 2" by simp
  have "x / 2 powi (- 1074) \<le> 2 powi (- 1075) / 2 powi (- 1074)"
    using assms(2) by (intro divide_right_mono) simp_all
  with half have le: "x / 2 powi (- 1074) \<le> 1 / 2" by simp
  have ge: "0 \<le> x / 2 powi (- 1074)" using assms(1) by simp
  from le ge have f: "\<lfloor>x / 2 powi (- 1074)\<rfloor> = 0" by (intro floor_unique) simp_all
  have "roundEven (x / 2 powi (- 1074)) = 0"
    using le by (simp only: roundEven_def f Let_def) simp
  with b show ?thesis by (simp add: flpos_def)
qed

lemma flpos_above_underflow:
  assumes "2 powi (- 1075) < x"
  shows "flpos x = PosInf \<or> (\<exists>r. flpos x = Num r \<and> 0 < r)"
proof -
  have "1 / 2 < x / 2 powi (binade x - 52)"
  proof (cases "binade x = - 1022")
    case True
    have "(2::real) powi (- 1075) / 2 powi (- 1074) = 1 / 2" by simp
    moreover have "2 powi (- 1075) / 2 powi (- 1074) < x / 2 powi (- 1074)"
      using assms by (intro divide_strict_right_mono) simp_all
    ultimately show ?thesis using True by simp
  next
    case False
    with binade_lower [of x] have "- 1022 < binade x" by simp
    then have "2 powi (binade x) \<le> x" by (rule binade_below)
    moreover have "(2::real) powi (binade x - 52) \<le> 2 powi (binade x)"
      by (intro power_int_increasing) simp_all
    ultimately have "2 powi (binade x - 52) \<le> x" by simp
    then have "1 \<le> x / 2 powi (binade x - 52)" by (simp add: field_simps)
    then show ?thesis by linarith
  qed
  then have "1 \<le> roundEven (x / 2 powi (binade x - 52))" by (rule roundEven_pos)
  then have "0 < real_of_int (roundEven (x / 2 powi (binade x - 52))) * 2 powi (binade x - 52)"
    by simp
  then show ?thesis by (simp add: flpos_def Let_def)
qed

lemma fl_eq_zero_iff: "(fl x = Num 0) = (\<bar>x\<bar> \<le> 2 powi (- 1075))"
proof (cases "\<bar>x\<bar> \<le> 2 powi (- 1075)")
  case True
  then have "flpos \<bar>x\<bar> = Num 0" by (intro flpos_underflow) simp_all
  with True show ?thesis by (auto simp: fl_def abs_if split: if_splits)
next
  case False
  then have "2 powi (- 1075) < \<bar>x\<bar>" by simp
  from flpos_above_underflow [OF this] have "flpos \<bar>x\<bar> \<noteq> Num 0" by auto
  moreover have "fl x = (if x < 0 then neg (flpos \<bar>x\<bar>) else flpos \<bar>x\<bar>)"
    by (simp add: fl_def abs_if)
  ultimately have "fl x \<noteq> Num 0" by (cases "flpos \<bar>x\<bar>") (auto split: if_splits)
  with False show ?thesis by simp
qed

lemma fl_below_zero:
  assumes "x < - (2 powi (- 1075))"
  shows "fl x = NegInf \<or> (\<exists>r. fl x = Num r \<and> r < 0)"
proof -
  have "(0::real) < 2 powi (- 1075)" by simp
  with assms have neg: "x < 0" by linarith
  from assms have "2 powi (- 1075) < - x" by simp
  from flpos_above_underflow [OF this] neg show ?thesis by (auto simp: fl_def)
qed

text \<open>The buffer in kilometres.\<close>

lemma bufferKm_falsy:
  "\<not> truthy b \<Longrightarrow> bufferKm cfg b = fdiv (Num (trailBufferMeters cfg)) (Num 1000)"
  by (cases b) (simp_all add: bufferKm_def)

lemma bufferKm_truthy: "truthy (Number n) \<Longrightarrow> bufferKm cfg (Number n) = fdiv n (Num 1000)"
  by (simp add: bufferKm_def)

lemma bufferKm_default:
  "bufferKm cfg (Number (Num (trailBufferMeters cfg))) = fdiv (Num (trailBufferMeters cfg)) (Num 1000)"
  by (simp add: bufferKm_def)

lemma bufferKm_CONFIG_default:
  "fdiv (Num (trailBufferMeters CONFIG_analysis)) (Num 1000)
     = Num (3602879701896397 / 36028797018963968)"
  by (simp add: CONFIG_analysis_def fl_eval flpos_eval [where e = "- 4"])

lemma scoreTrails_buffer_cong:
  "bufferKm cfg b = bufferKm cfg b' \<Longrightarrow> scoreTrails T cfg ts obs b = scoreTrails T cfg ts obs b'"
  by (simp add: scoreTrails_def)

lemma scoreTrails_throw_independent:
  "isl (scoreTrails T cfg ts obs b) = isl (scoreTrails T cfg ts obs b')"
proof -
  have "isl (scoreTrails T cfg ts obs c) = (\<not> (\<exists>ts'. scoreTrails T cfg ts obs c = Inr ts'))" for c
    by (cases "scoreTrails T cfg ts obs c") simp_all
  then show ?thesis by (simp add: scoreTrails_returns)
qed

text \<open>C5, as the code has it. \<open>scoreTrails\<close> does not validate \<^verbatim>\<open>bufferMeters\<close>: a
  non-positive value is not rejected. Whether the call throws does not depend on the
  value; 0 is replaced by the configured default and a negative value is used as given,
  divided by 1000; and a call that returns has reset every trail and counted it again
  against that buffer.\<close>

theorem scoreTrails_nonpositive_buffer_accepted:
  assumes "r \<le> 0"
  shows "(\<forall>b'. isl (scoreTrails T cfg ts obs (Number (Num r))) = isl (scoreTrails T cfg ts obs b')) \<and>
         bufferKm cfg (Number (Num r)) =
           fdiv (Num (if r = 0 then trailBufferMeters cfg else r)) (Num 1000) \<and>
         (\<forall>ts'. scoreTrails T cfg ts obs (Number (Num r)) = Inr ts' \<longrightarrow>
            length ts' = length ts \<and>
            (\<forall>i<length ts. obsNearby (ts' ! i) =
               int (length (filter
                 (\<lambda>pt. near T (fdiv (Num (if r = 0 then trailBufferMeters cfg else r)) (Num 1000)) pt
                         (geometry (ts ! i)))
                 (turfPoints T obs)))))"
proof (intro conjI allI impI)
  fix b'
  show "isl (scoreTrails T cfg ts obs (Number (Num r))) = isl (scoreTrails T cfg ts obs b')"
    by (rule scoreTrails_throw_independent)
next
  show buf: "bufferKm cfg (Number (Num r)) =
      fdiv (Num (if r = 0 then trailBufferMeters cfg else r)) (Num 1000)"
    by (simp add: bufferKm_def)
  fix ts'
  assume run: "scoreTrails T cfg ts obs (Number (Num r)) = Inr ts'"
  from scoreTrails_counts [OF run] show "length ts' = length ts" by simp
  fix i assume "i < length ts"
  with scoreTrails_counts [OF run]
  show "obsNearby (ts' ! i) =
               int (length (filter
                 (\<lambda>pt. near T (fdiv (Num (if r = 0 then trailBufferMeters cfg else r)) (Num 1000)) pt
                         (geometry (ts ! i)))
                 (turfPoints T obs)))"
    unfolding buf by simp
qed

text \<open>A call with buffer 0 and a call with buffer -5 both return, and both have
  overwritten the metrics of the trail.\<close>

theorem scoreTrails_rejects_nonpositive_counterexample:
  "scoreTrails demo CONFIG_analysis [mkTrail ''T1'' (HLine 0 0 1) 9 (Num (1 / 2))]
       [[1 / 2, 1 / 16]] (Number (Num 0))
     = Inr [mkTrail ''T1'' (HLine 0 0 1) 1 (Num 1)] \<and>
   scoreTrails demo CONFIG_analysis [mkTrail ''T1'' (HLine 0 0 1) 9 (Num (1 / 2))]
       [[1 / 2, 1 / 16]] (Number (Num (- 5)))
     = Inr [mkTrail ''T1'' (HLine 0 0 1) 0 (Num 0)]"
  by (simp add: run_simps demo_simps flpos_eval [where e = "- 4"] flpos_eval [where e = 0]
      flpos_eval [where e = "- 8"] flpos_eval [where e = "- 1022"])

theorem scoreTrails_nonpositive_buffer_accepted_witness:
  "(- 5 :: real) \<le> 0 \<and>
   scoreTrails demo CONFIG_analysis [mkTrail ''T1'' (HLine 0 0 1) 9 (Num (1 / 2))]
       [[1 / 2, 1 / 16]] (Number (Num (- 5)))
     = Inr [mkTrail ''T1'' (HLine 0 0 1) 0 (Num 0)] \<and>
   bufferKm CONFIG_analysis (Number (Num (- 5))) = fdiv (Num (- 5)) (Num 1000) \<and>
   length (filter (\<lambda>pt. near demo (fdiv (Num (- 5)) (Num 1000)) pt (HLine 0 0 1))
             (turfPoints demo [[1 / 2, 1 / 16]])) = 0"
proof -
  have run: "scoreTrails demo CONFIG_analysis [mkTrail ''T1'' (HLine 0 0 1) 9 (Num (1 / 2))]
       [[1 / 2, 1 / 16]] (Number (Num (- 5)))
     = Inr [mkTrail ''T1'' (HLine 0 0 1) 0 (Num 0)]"
    by (simp add: run_simps demo_simps flpos_eval [where e = "- 8"]
        flpos_eval [where e = "- 1022"])
  have neg: "(- 5 :: real) \<le> 0" by simp
  note inst = scoreTrails_nonpositive_buffer_accepted
    [OF neg, of demo CONFIG_analysis "[mkTrail ''T1'' (HLine 0 0 1) 9 (Num (1 / 2))]"
       "[[1 / 2, 1 / 16]]"]
  from inst have buf: "bufferKm CONFIG_analysis (Number (Num (- 5))) = fdiv (Num (- 5)) (Num 1000)"
    by simp
  from inst [THEN conjunct2, THEN conjunct2, rule_format, OF run, THEN conjunct2, rule_format, of 0]
  have "length (filter (\<lambda>pt. near demo (fdiv (Num (- 5)) (Num 1000)) pt (HLine 0 0 1))
             (turfPoints demo [[1 / 2, 1 / 16]])) = 0"
    by (simp add: mkTrail_def)
  with run buf show ?thesis by simp
qed

text \<open>A distance that is not negative is not within a negative buffer.\<close>

lemma near_negative_buffer:
  assumes "\<forall>g pt d. turf_nearestPointOnLine T g pt = Some d \<longrightarrow> \<not> jslt d (Num 0)"
    and "bufKm = NegInf \<or> (\<exists>q. bufKm = Num q \<and> q < 0)"
  shows "\<not> near T bufKm pt g"
proof (cases "turf_nearestPointOnLine T g pt")
  case None
  then show ?thesis by (simp add: near_def)
next
  case (Some d)
  with assms(1) have d: "\<not> jslt d (Num 0)" by blast
  from assms(2) have "\<not> jsle d bufKm"
  proof
    assume "bufKm = NegInf"
    with d show ?thesis by (cases d) simp_all
  next
    assume "\<exists>q. bufKm = Num q \<and> q < 0"
    then obtain q where "bufKm = Num q" and "q < 0" by blast
    with d show ?thesis by (cases d) simp_all
  qed
  with Some show ?thesis by (simp add: near_def)
qed

lemma scoreTrails_negative_buffer_zero:
  assumes "\<forall>g pt d. turf_nearestPointOnLine T g pt = Some d \<longrightarrow> \<not> jslt d (Num 0)"
    and "bufferKm cfg b = NegInf \<or> (\<exists>q. bufferKm cfg b = Num q \<and> q < 0)"
    and "scoreTrails T cfg ts obs b = Inr ts'"
  shows "\<forall>t \<in> set ts'. obsNearby t = 0 \<and> scoreNorm t = Num 0"
proof
  fix t assume t: "t \<in> set ts'"
  then obtain i where i: "i < length ts'" and ti: "t = ts' ! i"
    by (auto simp: in_set_conv_nth)
  have far: "\<not> near T (bufferKm cfg b) pt g" for pt g
    using assms(1,2) by (rule near_negative_buffer)
  from scoreTrails_counts [OF assms(3)] i ti far have z: "obsNearby t = 0" by simp
  have m: "real_of_int (maxObs ts') \<noteq> 0" using maxObs_ge_1 [of ts'] by simp
  from scoreTrails_score_value [OF assms(3) t] z m have "scoreNorm t = Num 0"
    by (simp add: fl_zero roundHalfUp_zero)
  with z show "obsNearby t = 0 \<and> scoreNorm t = Num 0" ..
qed

text \<open>C10, as the code has it. A falsy \<^verbatim>\<open>bufferMeters\<close> (0, \<^verbatim>\<open>undefined\<close>,
  \<^verbatim>\<open>NaN\<close>) gives the result of the configured default, 100 metres in
  \<open>CONFIG_analysis\<close>, so a falsy value never gives a zero buffer with that configuration.
  A non-zero value gives a zero buffer exactly when its magnitude is at most
  \<open>1000 * 2^-1075\<close>, where the division by 1000 underflows. A negative value below
  \<open>- 1000 * 2^-1075\<close>, or the negative infinity, is used as given, and since distances are
  not negative, a run that returns leaves \<open>obsNearby = 0\<close> and \<open>scoreNorm = 0\<close> on every
  trail.\<close>

theorem scoreTrails_falsy_buffer_is_default:
  "(\<not> truthy b \<longrightarrow>
      scoreTrails T cfg ts obs b = scoreTrails T cfg ts obs (Number (Num (trailBufferMeters cfg)))) \<and>
   scoreTrails T CONFIG_analysis ts obs (Number (Num 0))
     = scoreTrails T CONFIG_analysis ts obs (Number (Num 100)) \<and>
   scoreTrails T CONFIG_analysis ts obs Undefined
     = scoreTrails T CONFIG_analysis ts obs (Number (Num 100)) \<and>
   scoreTrails T CONFIG_analysis ts obs (Number NaN)
     = scoreTrails T CONFIG_analysis ts obs (Number (Num 100)) \<and>
   (\<not> truthy b \<longrightarrow> bufferKm CONFIG_analysis b \<noteq> Num 0) \<and>
   (r \<noteq> 0 \<longrightarrow> (bufferKm cfg (Number (Num r)) = Num 0) = (\<bar>r\<bar> \<le> 1000 * 2 powi (- 1075))) \<and>
   (r < - (1000 * 2 powi (- 1075)) \<and>
    (\<forall>g pt d. turf_nearestPointOnLine T g pt = Some d \<longrightarrow> \<not> jslt d (Num 0)) \<and>
    scoreTrails T cfg ts obs (Number (Num r)) = Inr ts' \<longrightarrow>
      bufferKm cfg (Number (Num r)) = fdiv (Num r) (Num 1000) \<and>
      (\<forall>t \<in> set ts'. obsNearby t = 0 \<and> scoreNorm t = Num 0)) \<and>
   ((\<forall>g pt d. turf_nearestPointOnLine T g pt = Some d \<longrightarrow> \<not> jslt d (Num 0)) \<and>
    scoreTrails T cfg ts obs (Number NegInf) = Inr ts'' \<longrightarrow>
      (\<forall>t \<in> set ts''. obsNearby t = 0 \<and> scoreNorm t = Num 0))"
proof (intro conjI impI)
  assume "\<not> truthy b"
  then show "scoreTrails T cfg ts obs b
      = scoreTrails T cfg ts obs (Number (Num (trailBufferMeters cfg)))"
    by (intro scoreTrails_buffer_cong) (simp add: bufferKm_falsy bufferKm_default)
next
  show "scoreTrails T CONFIG_analysis ts obs (Number (Num 0))
      = scoreTrails T CONFIG_analysis ts obs (Number (Num 100))"
    by (intro scoreTrails_buffer_cong) (simp add: bufferKm_def CONFIG_analysis_def)
next
  show "scoreTrails T CONFIG_analysis ts obs Undefined
      = scoreTrails T CONFIG_analysis ts obs (Number (Num 100))"
    by (intro scoreTrails_buffer_cong) (simp add: bufferKm_def CONFIG_analysis_def)
next
  show "scoreTrails T CONFIG_analysis ts obs (Number NaN)
      = scoreTrails T CONFIG_analysis ts obs (Number (Num 100))"
    by (intro scoreTrails_buffer_cong) (simp add: bufferKm_def CONFIG_analysis_def)
next
  assume "\<not> truthy b"
  then have "bufferKm CONFIG_analysis b = fdiv (Num (trailBufferMeters CONFIG_analysis)) (Num 1000)"
    by (rule bufferKm_falsy)
  then have "bufferKm CONFIG_analysis b = Num (3602879701896397 / 36028797018963968)"
    by (simp only: bufferKm_CONFIG_default)
  then show "bufferKm CONFIG_analysis b \<noteq> Num 0" by simp
next
  assume nz: "r \<noteq> 0"
  then have "bufferKm cfg (Number (Num r)) = fl (r / 1000)" by (simp add: bufferKm_def)
  moreover have "(\<bar>r / 1000\<bar> \<le> 2 powi (- 1075)) = (\<bar>r\<bar> \<le> 1000 * 2 powi (- 1075))"
    by (simp add: field_simps)
  ultimately show "(bufferKm cfg (Number (Num r)) = Num 0) = (\<bar>r\<bar> \<le> 1000 * 2 powi (- 1075))"
    by (simp only: fl_eq_zero_iff)
next
  assume a: "r < - (1000 * 2 powi (- 1075)) \<and>
    (\<forall>g pt d. turf_nearestPointOnLine T g pt = Some d \<longrightarrow> \<not> jslt d (Num 0)) \<and>
    scoreTrails T cfg ts obs (Number (Num r)) = Inr ts'"
  have "(0::real) < 1000 * 2 powi (- 1075)" by simp
  with a have nz: "r \<noteq> 0" by linarith
  then show buf: "bufferKm cfg (Number (Num r)) = fdiv (Num r) (Num 1000)"
    by (simp add: bufferKm_def)
  from a have "r / 1000 < - (2 powi (- 1075))" by (simp add: field_simps)
  from fl_below_zero [OF this]
  have neg: "bufferKm cfg (Number (Num r)) = NegInf \<or>
      (\<exists>q. bufferKm cfg (Number (Num r)) = Num q \<and> q < 0)"
    unfolding buf by simp
  from a have run: "scoreTrails T cfg ts obs (Number (Num r)) = Inr ts'" by simp
  from a have dist: "\<forall>g pt d. turf_nearestPointOnLine T g pt = Some d \<longrightarrow> \<not> jslt d (Num 0)"
    by simp
  from dist neg run show "\<forall>t \<in> set ts'. obsNearby t = 0 \<and> scoreNorm t = Num 0"
    by (rule scoreTrails_negative_buffer_zero)
next
  assume a: "(\<forall>g pt d. turf_nearestPointOnLine T g pt = Some d \<longrightarrow> \<not> jslt d (Num 0)) \<and>
    scoreTrails T cfg ts obs (Number NegInf) = Inr ts''"
  then have dist: "\<forall>g pt d. turf_nearestPointOnLine T g pt = Some d \<longrightarrow> \<not> jslt d (Num 0)"
    and run: "scoreTrails T cfg ts obs (Number NegInf) = Inr ts''" by simp_all
  have "bufferKm cfg (Number NegInf) = NegInf" by (simp add: bufferKm_def)
  then have neg: "bufferKm cfg (Number NegInf) = NegInf \<or>
      (\<exists>q. bufferKm cfg (Number NegInf) = Num q \<and> q < 0)" by simp
  from dist neg run show "\<forall>t \<in> set ts''. obsNearby t = 0 \<and> scoreNorm t = Num 0"
    by (rule scoreTrails_negative_buffer_zero)
qed

text \<open>The smallest positive binary64 is truthy and gives a zero buffer: only the point
  on the trail is counted, not the point 62.5 metres away that the default counts. Its
  negative gives a zero buffer too, and the point on the trail is counted.\<close>

theorem scoreTrails_tiny_buffer_counterexample:
  "truthy (Number (Num (2 powi (- 1074)))) \<and>
   bufferKm CONFIG_analysis (Number (Num (2 powi (- 1074)))) = Num 0 \<and>
   scoreTrails demo CONFIG_analysis [mkTrail ''T1'' (HLine 0 0 1) 0 (Num 0)]
       [[1 / 2, 0], [1 / 2, 1 / 16]] (Number (Num (2 powi (- 1074))))
     = Inr [mkTrail ''T1'' (HLine 0 0 1) 1 (Num 1)] \<and>
   scoreTrails demo CONFIG_analysis [mkTrail ''T1'' (HLine 0 0 1) 0 (Num 0)]
       [[1 / 2, 0], [1 / 2, 1 / 16]] (Number (Num 100))
     = Inr [mkTrail ''T1'' (HLine 0 0 1) 2 (Num 1)] \<and>
   scoreTrails demo CONFIG_analysis [mkTrail ''T1'' (HLine 0 0 1) 0 (Num 0)]
       [[1 / 2, 0]] (Number (Num (- (2 powi (- 1074)))))
     = Inr [mkTrail ''T1'' (HLine 0 0 1) 1 (Num 1)]"
  by (simp add: run_simps demo_simps flpos_eval [where e = "- 4"] flpos_eval [where e = 0]
      flpos_eval [where e = "- 1022"])

theorem scoreTrails_falsy_buffer_is_default_witness:
  "\<not> truthy (Number (Num 0)) \<and> (- 5 :: real) < - (1000 * 2 powi (- 1075)) \<and>
   scoreTrails demo CONFIG_analysis [mkTrail ''T1'' (HLine 0 0 1) 9 (Num (1 / 2))]
       [[1 / 2, 1 / 16]] (Number (Num 0))
     = scoreTrails demo CONFIG_analysis [mkTrail ''T1'' (HLine 0 0 1) 9 (Num (1 / 2))]
         [[1 / 2, 1 / 16]] (Number (Num (trailBufferMeters CONFIG_analysis))) \<and>
   scoreTrails demo CONFIG_analysis [mkTrail ''T1'' (HLine 0 0 1) 9 (Num (1 / 2))]
       [[1 / 2, 1 / 16]] (Number (Num (- 5)))
     = Inr [mkTrail ''T1'' (HLine 0 0 1) 0 (Num 0)] \<and>
   obsNearby (mkTrail ''T1'' (HLine 0 0 1) 0 (Num 0)) = 0 \<and>
   scoreNorm (mkTrail ''T1'' (HLine 0 0 1) 0 (Num 0)) = Num 0 \<and>
   bufferKm CONFIG_analysis (Number (Num (- 5))) \<noteq> Num 0"
proof -
  have dist: "\<forall>g pt d. turf_nearestPointOnLine demo g pt = Some d \<longrightarrow> \<not> jslt d (Num 0)"
    by (auto simp: demo_def demo_nearestPointOnLine_def split: geom.splits)
  have run: "scoreTrails demo CONFIG_analysis [mkTrail ''T1'' (HLine 0 0 1) 9 (Num (1 / 2))]
      [[1 / 2, 1 / 16]] (Number (Num (- 5))) = Inr [mkTrail ''T1'' (HLine 0 0 1) 0 (Num 0)]"
    by (simp add: run_simps demo_simps flpos_eval [where e = "- 8"]
        flpos_eval [where e = "- 1022"])
  have neg: "(- 5 :: real) < - (1000 * 2 powi (- 1075))" by simp
  have nz: "(- 5 :: real) \<noteq> 0" by simp
  have big: "\<not> \<bar>- 5 :: real\<bar> \<le> 1000 * 2 powi (- 1075)" by simp
  have falsy: "\<not> truthy (Number (Num 0))" by simp
  note inst = scoreTrails_falsy_buffer_is_default
    [of "Number (Num 0)" demo CONFIG_analysis "[mkTrail ''T1'' (HLine 0 0 1) 9 (Num (1 / 2))]"
        "[[1 / 2, 1 / 16]]" "- 5" "[mkTrail ''T1'' (HLine 0 0 1) 0 (Num 0)]" "[]"]
  from inst falsy have one: "scoreTrails demo CONFIG_analysis
         [mkTrail ''T1'' (HLine 0 0 1) 9 (Num (1 / 2))] [[1 / 2, 1 / 16]] (Number (Num 0))
     = scoreTrails demo CONFIG_analysis [mkTrail ''T1'' (HLine 0 0 1) 9 (Num (1 / 2))]
         [[1 / 2, 1 / 16]] (Number (Num (trailBufferMeters CONFIG_analysis)))"
    by blast
  from inst neg dist run
  have "\<forall>t \<in> set [mkTrail ''T1'' (HLine 0 0 1) 0 (Num 0)]. obsNearby t = 0 \<and> scoreNorm t = Num 0"
    by blast
  then have two: "obsNearby (mkTrail ''T1'' (HLine 0 0 1) 0 (Num 0)) = 0 \<and>
      scoreNorm (mkTrail ''T1'' (HLine 0 0 1) 0 (Num 0)) = Num 0"
    by simp
  from inst nz big have three: "bufferKm CONFIG_analysis (Number (Num (- 5))) \<noteq> Num 0"
    by blast
  from falsy neg one run two three show ?thesis by blast
qed

subsection \<open>Running twice\<close>

text \<open>A run reads nothing of the metrics it finds: it depends on the features only
  through their reset form, and it leaves that form unchanged.\<close>

lemma aggregate_reset_cong:
  "map resetWatershed wss1 = map resetWatershed wss2 \<Longrightarrow>
     aggregateByWatershed T wss1 obs = aggregateByWatershed T wss2 obs"
  by (simp add: aggregateByWatershed_def)

lemma reset_reset_list: "map resetWatershed (map resetWatershed wss) = map resetWatershed wss"
  by (simp add: reset_reset)

lemma aggregate_result_reset:
  assumes "aggregateByWatershed T wss obs = Inr wss' \<or>
           aggregateByWatershed T wss obs = Inl (PointError wss')"
  shows "map resetWatershed wss' = map resetWatershed wss"
  using assms
proof
  assume "aggregateByWatershed T wss obs = Inr wss'"
  from aggregate_Inr [OF this] obtain counted
    where c: "countObservations T (map resetWatershed wss) obs = Inr counted"
      and r: "wss' = map (calculateDensity T) counted" by blast
  have "map resetWatershed wss' = map resetWatershed counted"
    unfolding r by (simp add: reset_calculateDensity)
  also have "\<dots> = map resetWatershed (map resetWatershed wss)"
    using countObservations_Inr [OF c] by blast
  finally show ?thesis by (simp only: reset_reset_list)
next
  assume "aggregateByWatershed T wss obs = Inl (PointError wss')"
  then have "countObservations T (map resetWatershed wss) obs = Inl (PointError wss')"
    by (auto simp: aggregateByWatershed_def split: sum.splits)
  from countObservations_Inl [OF this] show ?thesis by (simp only: reset_reset_list)
qed

lemma scoreTrails_reset_cong:
  "map resetTrail ts1 = map resetTrail ts2 \<Longrightarrow>
     scoreTrails T cfg ts1 obs b = scoreTrails T cfg ts2 obs b"
  by (simp add: scoreTrails_def)

lemma resetTrail_twice: "map resetTrail (map resetTrail ts) = map resetTrail ts"
  by (simp add: resetTrail_def)

lemma scoreTrails_result_reset:
  assumes "scoreTrails T cfg ts obs b = Inr ts' \<or>
           scoreTrails T cfg ts obs b = Inl (PointError ts')"
  shows "map resetTrail ts' = map resetTrail ts"
  using assms
proof
  assume "scoreTrails T cfg ts obs b = Inr ts'"
  from scoreTrails_Inr [OF this] obtain scored
    where s: "scoreObservations T (bufferKm cfg b) (map resetTrail ts) obs = Inr scored"
      and r: "ts' = normalize scored" by blast
  have "map resetTrail ts' = map resetTrail scored"
    unfolding r by (rule reset_normalize)
  also have "\<dots> = map resetTrail (map resetTrail ts)"
    using scoreObservations_Inr [OF s] by blast
  finally show ?thesis by (simp only: resetTrail_twice)
next
  assume "scoreTrails T cfg ts obs b = Inl (PointError ts')"
  then have "scoreObservations T (bufferKm cfg b) (map resetTrail ts) obs = Inl (PointError ts')"
    by (auto simp: scoreTrails_def split: sum.splits)
  from scoreObservations_Inl [OF this] show ?thesis by (simp only: resetTrail_twice)
qed

text \<open>C8. Running \<open>aggregateByWatershed\<close> again on the features it has left, with the
  same observations, leaves the same \<open>obsCount\<close> and \<open>obsDensity\<close>; running
  \<open>scoreTrails\<close> again leaves the same \<open>obsNearby\<close> and \<open>scoreNorm\<close>. This holds for a
  run that returns and for a run that throws: nothing accumulates across runs.\<close>

theorem rerun_gives_same_metrics:
  "(aggregateByWatershed T wss obs = Inr wss' \<longrightarrow> aggregateByWatershed T wss' obs = Inr wss') \<and>
   (aggregateByWatershed T wss obs = Inl (PointError wss') \<longrightarrow>
      aggregateByWatershed T wss' obs = Inl (PointError wss')) \<and>
   (scoreTrails T cfg ts obs b = Inr ts' \<longrightarrow> scoreTrails T cfg ts' obs b = Inr ts') \<and>
   (scoreTrails T cfg ts obs b = Inl (PointError ts') \<longrightarrow>
      scoreTrails T cfg ts' obs b = Inl (PointError ts'))"
proof (intro conjI impI)
  assume a: "aggregateByWatershed T wss obs = Inr wss'"
  then have "map resetWatershed wss' = map resetWatershed wss"
    by (intro aggregate_result_reset [of T wss obs]) simp
  from aggregate_reset_cong [OF this, where T = T and obs = obs] a show "aggregateByWatershed T wss' obs = Inr wss'" by simp
next
  assume a: "aggregateByWatershed T wss obs = Inl (PointError wss')"
  then have "map resetWatershed wss' = map resetWatershed wss"
    by (intro aggregate_result_reset [of T wss obs]) simp
  from aggregate_reset_cong [OF this, where T = T and obs = obs] a
  show "aggregateByWatershed T wss' obs = Inl (PointError wss')" by simp
next
  assume a: "scoreTrails T cfg ts obs b = Inr ts'"
  then have "map resetTrail ts' = map resetTrail ts"
    by (intro scoreTrails_result_reset [of T cfg ts obs b]) simp
  from scoreTrails_reset_cong [OF this, where T = T and cfg = cfg and obs = obs and b = b] a show "scoreTrails T cfg ts' obs b = Inr ts'" by simp
next
  assume a: "scoreTrails T cfg ts obs b = Inl (PointError ts')"
  then have "map resetTrail ts' = map resetTrail ts"
    by (intro scoreTrails_result_reset [of T cfg ts obs b]) simp
  from scoreTrails_reset_cong [OF this, where T = T and cfg = cfg and obs = obs and b = b] a
  show "scoreTrails T cfg ts' obs b = Inl (PointError ts')" by simp
qed

theorem rerun_gives_same_metrics_witness:
  "aggregateByWatershed demo
     [mkWatershed ''A'' (Rect 0 0 2 2) 5 (Num 9), mkWatershed ''B'' (Rect 1 1 3 3) 7 (Num 9)]
     [[3 / 2, 3 / 2], [10, 10]]
   = Inr [mkWatershed ''A'' (Rect 0 0 2 2) 1 (Num (1 / 4)), mkWatershed ''B'' (Rect 1 1 3 3) 0 (Num 0)] \<and>
   aggregateByWatershed demo
     [mkWatershed ''A'' (Rect 0 0 2 2) 1 (Num (1 / 4)), mkWatershed ''B'' (Rect 1 1 3 3) 0 (Num 0)]
     [[3 / 2, 3 / 2], [10, 10]]
   = Inr [mkWatershed ''A'' (Rect 0 0 2 2) 1 (Num (1 / 4)), mkWatershed ''B'' (Rect 1 1 3 3) 0 (Num 0)] \<and>
   scoreTrails demo CONFIG_analysis
     [mkTrail ''T1'' (HLine 0 0 1) 9 (Num 9), mkTrail ''T2'' (HLine (1 / 8) 0 1) 9 (Num 9)]
     [[1 / 2, 1 / 16], [1 / 2, - 1 / 16]] (Number (Num 100))
   = Inr [mkTrail ''T1'' (HLine 0 0 1) 2 (Num 1), mkTrail ''T2'' (HLine (1 / 8) 0 1) 1 (Num (1 / 2))] \<and>
   scoreTrails demo CONFIG_analysis
     [mkTrail ''T1'' (HLine 0 0 1) 2 (Num 1), mkTrail ''T2'' (HLine (1 / 8) 0 1) 1 (Num (1 / 2))]
     [[1 / 2, 1 / 16], [1 / 2, - 1 / 16]] (Number (Num 100))
   = Inr [mkTrail ''T1'' (HLine 0 0 1) 2 (Num 1), mkTrail ''T2'' (HLine (1 / 8) 0 1) 1 (Num (1 / 2))]"
proof -
  have agg: "aggregateByWatershed demo
     [mkWatershed ''A'' (Rect 0 0 2 2) 5 (Num 9), mkWatershed ''B'' (Rect 1 1 3 3) 7 (Num 9)]
     [[3 / 2, 3 / 2], [10, 10]]
   = Inr [mkWatershed ''A'' (Rect 0 0 2 2) 1 (Num (1 / 4)), mkWatershed ''B'' (Rect 1 1 3 3) 0 (Num 0)]"
    by (simp add: run_simps demo_simps flpos_eval [where e = "- 4"] flpos_eval [where e = 0]
        flpos_eval [where e = "- 1"] flpos_eval [where e = 2] flpos_eval [where e = "- 2"]
        flpos_eval [where e = "- 1022"])
  have sc: "scoreTrails demo CONFIG_analysis
     [mkTrail ''T1'' (HLine 0 0 1) 9 (Num 9), mkTrail ''T2'' (HLine (1 / 8) 0 1) 9 (Num 9)]
     [[1 / 2, 1 / 16], [1 / 2, - 1 / 16]] (Number (Num 100))
   = Inr [mkTrail ''T1'' (HLine 0 0 1) 2 (Num 1), mkTrail ''T2'' (HLine (1 / 8) 0 1) 1 (Num (1 / 2))]"
    by (simp add: run_simps demo_simps flpos_eval [where e = "- 4"] flpos_eval [where e = 0]
        flpos_eval [where e = "- 1"] flpos_eval [where e = 2] flpos_eval [where e = "- 2"]
        flpos_eval [where e = "- 1022"])
  note again = rerun_gives_same_metrics
    [where T = demo
       and wss = "[mkWatershed ''A'' (Rect 0 0 2 2) 5 (Num 9), mkWatershed ''B'' (Rect 1 1 3 3) 7 (Num 9)]"
       and obs = "[[3 / 2, 3 / 2], [10, 10]]"
       and wss' = "[mkWatershed ''A'' (Rect 0 0 2 2) 1 (Num (1 / 4)), mkWatershed ''B'' (Rect 1 1 3 3) 0 (Num 0)]"]
  note again2 = rerun_gives_same_metrics
    [where T = demo and cfg = CONFIG_analysis
       and ts = "[mkTrail ''T1'' (HLine 0 0 1) 9 (Num 9), mkTrail ''T2'' (HLine (1 / 8) 0 1) 9 (Num 9)]"
       and obs = "[[1 / 2, 1 / 16], [1 / 2, - 1 / 16]]" and b = "Number (Num 100)"
       and ts' = "[mkTrail ''T1'' (HLine 0 0 1) 2 (Num 1), mkTrail ''T2'' (HLine (1 / 8) 0 1) 1 (Num (1 / 2))]"]
  from again agg have "aggregateByWatershed demo
     [mkWatershed ''A'' (Rect 0 0 2 2) 1 (Num (1 / 4)), mkWatershed ''B'' (Rect 1 1 3 3) 0 (Num 0)]
     [[3 / 2, 3 / 2], [10, 10]]
   = Inr [mkWatershed ''A'' (Rect 0 0 2 2) 1 (Num (1 / 4)), mkWatershed ''B'' (Rect 1 1 3 3) 0 (Num 0)]"
    by blast
  moreover from again2 sc have "scoreTrails demo CONFIG_analysis
     [mkTrail ''T1'' (HLine 0 0 1) 2 (Num 1), mkTrail ''T2'' (HLine (1 / 8) 0 1) 1 (Num (1 / 2))]
     [[1 / 2, 1 / 16], [1 / 2, - 1 / 16]] (Number (Num 100))
   = Inr [mkTrail ''T1'' (HLine 0 0 1) 2 (Num 1), mkTrail ''T2'' (HLine (1 / 8) 0 1) 1 (Num (1 / 2))]"
    by blast
  ultimately show ?thesis using agg sc by blast
qed

subsection \<open>Malformed geometries\<close>

text \<open>A containment test, a distance or an area that throws is caught: the watershed or
  trail is passed over for that point, and the density is 0.\<close>

lemma assignPoint_skips_throwing_test:
  "turf_booleanPointInPolygon T pt (geometry w) = None \<Longrightarrow>
     assignPoint T pt (w # rest) = w # assignPoint T pt rest"
  by simp

lemma scoreTrail_skips_throwing_distance:
  "turf_nearestPointOnLine T (geometry t) pt = None \<Longrightarrow> scoreTrail T bufKm pt t = t"
  by (simp add: scoreTrail_def)

lemma calculateDensity_throwing_area:
  "turf_area T (geometry w) = None \<Longrightarrow> obsDensity (calculateDensity T w) = Num 0"
  by (simp add: calculateDensity_def)

lemma malformed_region_is_skipped:
  "aggregateByWatershed demo
     [mkWatershed ''M'' Malformed 3 (Num 3), mkWatershed ''A'' (Rect 0 0 2 2) 5 (Num 9)]
     [[1, 1], [1, 1]]
   = Inr [mkWatershed ''M'' Malformed 0 (Num 0), mkWatershed ''A'' (Rect 0 0 2 2) 2 (Num (1 / 2))]"
  by (simp add: run_simps demo_simps flpos_eval [where e = "- 4"] flpos_eval [where e = 0]
        flpos_eval [where e = "- 1"] flpos_eval [where e = 2] flpos_eval [where e = "- 2"]
        flpos_eval [where e = "- 1022"])

text \<open>C9. \<^verbatim>\<open>turf.point\<close> is called outside the \<^verbatim>\<open>try\<close> blocks. With three
  observations of which the second has a single coordinate, \<open>aggregateByWatershed\<close>
  throws at the second: the third observation is never counted (the count is 1, not 2)
  and the density is never computed. \<open>scoreTrails\<close> throws in the same way and leaves
  \<open>scoreNorm = 0\<close> on a trail with \<open>obsNearby = 1\<close>.\<close>

theorem malformed_point_aborts_run:
  "turf_point demo [1 / 2] = None \<and>
   aggregateByWatershed demo [mkWatershed ''A'' (Rect 0 0 2 2) 0 (Num 0)] [[1, 1], [1 / 2], [1, 1]]
     = Inl (PointError [mkWatershed ''A'' (Rect 0 0 2 2) 1 (Num 0)]) \<and>
   scoreTrails demo CONFIG_analysis [mkTrail ''T1'' (HLine 0 0 1) 0 (Num 0)]
       [[1 / 2, 1 / 16], [1 / 2], [1 / 2, 1 / 16]] (Number (Num 100))
     = Inl (PointError [mkTrail ''T1'' (HLine 0 0 1) 1 (Num 0)])"
  by (simp add: run_simps demo_simps flpos_eval [where e = "- 4"] flpos_eval [where e = 0]
        flpos_eval [where e = "- 1"] flpos_eval [where e = 2] flpos_eval [where e = "- 2"]
        flpos_eval [where e = "- 1022"])

end
